theory Spec2Isabelle
  imports Main "HOL-Library.Word" "HOL-Library.Sublist"
begin

unbundle bit_operations_syntax

section \<open>check\_tv\_compat: data model\<close>

text \<open>
  The program is one C file, \<^verbatim>\<open>check_tv_compat.c\<close>. It reads media files through
  libavformat and classifies the container and every video, audio and subtitle stream
  against a fixed support matrix, then prints suggested ffmpeg commands.

  C strings are modelled by the characters before their terminating NUL, as a
  \<^typ>\<open>string\<close>; a pointer that may be \<^verbatim>\<open>NULL\<close> is an \<^typ>\<open>'a option\<close>.
  Functions returning a C truth value return \<^typ>\<open>bool\<close>.
\<close>

subsection \<open>Types declared by libavcodec and libavutil\<close>

text \<open>
  \<^verbatim>\<open>enum AVMediaType\<close> of libavutil, with all its enumerators.
\<close>

datatype AVMediaType =
    AVMEDIA_TYPE_UNKNOWN
  | AVMEDIA_TYPE_VIDEO
  | AVMEDIA_TYPE_AUDIO
  | AVMEDIA_TYPE_DATA
  | AVMEDIA_TYPE_SUBTITLE
  | AVMEDIA_TYPE_ATTACHMENT
  | AVMEDIA_TYPE_NB

text \<open>
  \<^verbatim>\<open>enum AVCodecID\<close> of libavcodec. The enumerators the program names are
  constructors, with a handful of further ones that serve as examples of codecs outside
  every list; \<open>AV_CODEC_ID_OTHER n\<close> stands for each remaining enumerator. The
  program only compares codec identifiers for equality.
\<close>

datatype AVCodecID =
    AV_CODEC_ID_NONE
  | AV_CODEC_ID_H264
  | AV_CODEC_ID_HEVC
  | AV_CODEC_ID_MPEG2VIDEO
  | AV_CODEC_ID_VP9
  | AV_CODEC_ID_AV1
  | AV_CODEC_ID_MJPEG
  | AV_CODEC_ID_PNG
  | AV_CODEC_ID_MPEG4
  | AV_CODEC_ID_VP8
  | AV_CODEC_ID_AAC
  | AV_CODEC_ID_AC3
  | AV_CODEC_ID_EAC3
  | AV_CODEC_ID_MP3
  | AV_CODEC_ID_PCM_S16LE
  | AV_CODEC_ID_FLAC
  | AV_CODEC_ID_VORBIS
  | AV_CODEC_ID_OPUS
  | AV_CODEC_ID_WMAV2
  | AV_CODEC_ID_DTS
  | AV_CODEC_ID_SUBRIP
  | AV_CODEC_ID_ASS
  | AV_CODEC_ID_SSA
  | AV_CODEC_ID_WEBVTT
  | AV_CODEC_ID_MOV_TEXT
  | AV_CODEC_ID_MICRODVD
  | AV_CODEC_ID_TEXT
  | AV_CODEC_ID_HDMV_PGS_SUBTITLE
  | AV_CODEC_ID_DVD_SUBTITLE
  | AV_CODEC_ID_DVB_SUBTITLE
  | AV_CODEC_ID_OTHER nat

text \<open>
  The fields of \<^verbatim>\<open>AVCodecParameters\<close> that the program reads: \<^verbatim>\<open>codec_tag\<close> is a
  \<^verbatim>\<open>uint32_t\<close>, \<^verbatim>\<open>profile\<close> an \<^verbatim>\<open>int\<close> that is only compared with constants.
\<close>

record AVCodecParameters =
  codec_type :: AVMediaType
  codec_id :: AVCodecID
  codec_tag :: "32 word"
  profile :: int

text \<open>
  Of an \<^verbatim>\<open>AVStream\<close> the program reads \<^verbatim>\<open>codecpar\<close> and looks up the key
  \<^verbatim>\<open>language\<close> in \<^verbatim>\<open>metadata\<close>; \<open>language\<close> is the entry that
  \<^verbatim>\<open>av_dict_get\<close> returns, if any.
\<close>

record AVStream =
  codecpar :: AVCodecParameters
  language :: "string option"

text \<open>
  libavutil's macro \<^verbatim>\<open>MKTAG(a,b,c,d)\<close> is
  \<^verbatim>\<open>((a) | ((b) << 8) | ((c) << 16) | ((unsigned)(d) << 24))\<close>.
\<close>

definition MKTAG :: "char \<Rightarrow> char \<Rightarrow> char \<Rightarrow> char \<Rightarrow> 32 word" where
  "MKTAG a b c d =
     of_char a OR push_bit 8 (of_char b) OR push_bit 16 (of_char c) OR push_bit 24 (of_char d)"

text \<open>The MPEG-4 profile constants of libavcodec.\<close>

definition FF_PROFILE_MPEG4_SIMPLE_STUDIO :: int where
  "FF_PROFILE_MPEG4_SIMPLE_STUDIO = 14"

definition FF_PROFILE_MPEG4_ADVANCED_SIMPLE :: int where
  "FF_PROFILE_MPEG4_ADVANCED_SIMPLE = 15"

section \<open>Stream and container classification\<close>

definition is_video_codec_supported :: "AVCodecParameters \<Rightarrow> bool" where
  "is_video_codec_supported par =
     (let cid = codec_id par in
        cid = AV_CODEC_ID_H264 \<or>
        cid = AV_CODEC_ID_HEVC \<or>
        cid = AV_CODEC_ID_MPEG2VIDEO \<or>
        cid = AV_CODEC_ID_VP9 \<or>
        cid = AV_CODEC_ID_AV1 \<or>
        cid = AV_CODEC_ID_MJPEG \<or>
        cid = AV_CODEC_ID_PNG \<or>
        (cid = AV_CODEC_ID_MPEG4 \<and>
         codec_tag par \<noteq> MKTAG (CHR ''X'') (CHR ''V'') (CHR ''I'') (CHR ''D'') \<and>
         codec_tag par \<noteq> MKTAG (CHR ''x'') (CHR ''v'') (CHR ''i'') (CHR ''d'') \<and>
         codec_tag par \<noteq> MKTAG (CHR ''D'') (CHR ''I'') (CHR ''V'') (CHR ''X'') \<and>
         codec_tag par \<noteq> MKTAG (CHR ''d'') (CHR ''i'') (CHR ''v'') (CHR ''x'') \<and>
         codec_tag par \<noteq> MKTAG (CHR ''D'') (CHR ''X'') (CHR ''5'') (CHR ''0'') \<and>
         codec_tag par \<noteq> MKTAG (CHR ''M'') (CHR ''P'') (CHR ''4'') (CHR ''V'') \<and>
         codec_tag par \<noteq> MKTAG (CHR ''m'') (CHR ''p'') (CHR ''4'') (CHR ''v'') \<and>
         codec_tag par \<noteq> MKTAG (CHR ''F'') (CHR ''M'') (CHR ''P'') (CHR ''4'') \<and>
         codec_tag par \<noteq> MKTAG (CHR ''f'') (CHR ''m'') (CHR ''p'') (CHR ''4'') \<and>
         \<not> (profile par = FF_PROFILE_MPEG4_ADVANCED_SIMPLE \<or>
            profile par = FF_PROFILE_MPEG4_SIMPLE_STUDIO)))"

definition is_audio_codec_supported :: "AVCodecID \<Rightarrow> bool" where
  "is_audio_codec_supported cid =
     (cid = AV_CODEC_ID_AAC \<or>
      cid = AV_CODEC_ID_AC3 \<or>
      cid = AV_CODEC_ID_EAC3 \<or>
      cid = AV_CODEC_ID_MP3 \<or>
      cid = AV_CODEC_ID_PCM_S16LE \<or>
      cid = AV_CODEC_ID_FLAC \<or>
      cid = AV_CODEC_ID_VORBIS \<or>
      cid = AV_CODEC_ID_OPUS \<or>
      cid = AV_CODEC_ID_WMAV2)"

text \<open>
  \<^verbatim>\<open>strstr(haystack, needle)\<close> of the C library: the tail of the haystack that starts
  at the first occurrence of the needle, \<open>None\<close> for \<^verbatim>\<open>NULL\<close>.
\<close>

fun strstr :: "string \<Rightarrow> string \<Rightarrow> string option" where
  "strstr [] needle = (if needle = [] then Some [] else None)"
| "strstr (c # cs) needle =
     (if prefix needle (c # cs) then Some (c # cs) else strstr cs needle)"

definition is_container_supported :: "string option \<Rightarrow> bool" where
  "is_container_supported format_name =
     (case format_name of
        None \<Rightarrow> False
      | Some name \<Rightarrow>
          strstr name ''matroska'' \<noteq> None \<or>
          strstr name ''mp4'' \<noteq> None \<or>
          strstr name ''mov'' \<noteq> None \<or>
          strstr name ''mpegts'' \<noteq> None \<or>
          strstr name ''webm'' \<noteq> None \<or>
          strstr name ''avi'' \<noteq> None \<or>
          strstr name ''asf'' \<noteq> None \<or>
          strstr name ''wav'' \<noteq> None \<or>
          strstr name ''flac'' \<noteq> None \<or>
          strstr name ''mp3'' \<noteq> None \<or>
          strstr name ''ogg'' \<noteq> None \<or>
          strstr name ''wmv'' \<noteq> None)"

definition is_subtitle_codec_supported :: "AVCodecID \<Rightarrow> bool" where
  "is_subtitle_codec_supported cid =
     (cid = AV_CODEC_ID_SUBRIP \<or>
      cid = AV_CODEC_ID_ASS \<or>
      cid = AV_CODEC_ID_SSA \<or>
      cid = AV_CODEC_ID_WEBVTT \<or>
      cid = AV_CODEC_ID_MOV_TEXT \<or>
      cid = AV_CODEC_ID_MICRODVD \<or>
      cid = AV_CODEC_ID_TEXT)"

definition is_text_subtitle :: "AVCodecID \<Rightarrow> bool" where
  "is_text_subtitle cid =
     (cid = AV_CODEC_ID_SUBRIP \<or>
      cid = AV_CODEC_ID_ASS \<or>
      cid = AV_CODEC_ID_SSA \<or>
      cid = AV_CODEC_ID_WEBVTT \<or>
      cid = AV_CODEC_ID_MOV_TEXT \<or>
      cid = AV_CODEC_ID_MICRODVD \<or>
      cid = AV_CODEC_ID_TEXT)"

definition is_bitmap_subtitle :: "AVCodecID \<Rightarrow> bool" where
  "is_bitmap_subtitle cid =
     (cid = AV_CODEC_ID_HDMV_PGS_SUBTITLE \<or>
      cid = AV_CODEC_ID_DVD_SUBTITLE)"

definition is_media_stream :: "AVMediaType \<Rightarrow> bool" where
  "is_media_stream type =
     (type = AVMEDIA_TYPE_VIDEO \<or>
      type = AVMEDIA_TYPE_AUDIO \<or>
      type = AVMEDIA_TYPE_SUBTITLE)"

subsection \<open>The support matrix in the specification's words\<close>

text \<open>
  The specification names the excluded codec tags by their four characters; \<open>fourcc\<close>
  reads such a name as the tag it denotes.
\<close>

fun fourcc :: "string \<Rightarrow> 32 word" where
  "fourcc [a, b, c, d] = MKTAG a b c d"
| "fourcc _ = 0"

definition spec_video_codecs :: "AVCodecID set" where
  "spec_video_codecs =
     {AV_CODEC_ID_H264, AV_CODEC_ID_HEVC, AV_CODEC_ID_MPEG2VIDEO, AV_CODEC_ID_VP9,
      AV_CODEC_ID_AV1, AV_CODEC_ID_MJPEG, AV_CODEC_ID_PNG}"

definition spec_excluded_tag_names :: "string list" where
  "spec_excluded_tag_names =
     [''XVID'', ''xvid'', ''DIVX'', ''divx'', ''DX50'', ''MP4V'', ''mp4v'', ''FMP4'', ''fmp4'']"

definition spec_excluded_profiles :: "int set" where
  "spec_excluded_profiles = {FF_PROFILE_MPEG4_ADVANCED_SIMPLE, FF_PROFILE_MPEG4_SIMPLE_STUDIO}"

definition spec_subtitle_codecs :: "AVCodecID set" where
  "spec_subtitle_codecs =
     {AV_CODEC_ID_SUBRIP, AV_CODEC_ID_ASS, AV_CODEC_ID_SSA, AV_CODEC_ID_WEBVTT,
      AV_CODEC_ID_MOV_TEXT, AV_CODEC_ID_MICRODVD, AV_CODEC_ID_TEXT}"

definition spec_container_names :: "string list" where
  "spec_container_names =
     [''matroska'', ''mp4'', ''mov'', ''mpegts'', ''webm'', ''avi'', ''asf'', ''wav'',
      ''flac'', ''mp3'', ''ogg'', ''wmv'']"

section \<open>Strings, paths and shell escaping\<close>

text \<open>
  \<^verbatim>\<open>strrchr(s, c)\<close> of the C library, for a character \<open>c\<close> other than NUL: the tail
  of \<open>s\<close> that starts at the last occurrence of \<open>c\<close>.
\<close>

fun strrchr :: "string \<Rightarrow> char \<Rightarrow> string option" where
  "strrchr [] c = None"
| "strrchr (x # xs) c =
     (case strrchr xs c of
        Some r \<Rightarrow> Some r
      | None \<Rightarrow> if x = c then Some (x # xs) else None)"

text \<open>\<^verbatim>\<open>tolower\<close> and \<^verbatim>\<open>strcasecmp\<close> of the C library, in the C locale.\<close>

definition tolower :: "char \<Rightarrow> char" where
  "tolower c =
     (let n = (of_char c :: nat) in if 65 \<le> n \<and> n \<le> 90 then char_of (n + 32) else c)"

fun strcasecmp :: "string \<Rightarrow> string \<Rightarrow> int" where
  "strcasecmp [] [] = 0"
| "strcasecmp [] (b # t) = - of_char (tolower b)"
| "strcasecmp (a # s) [] = of_char (tolower a)"
| "strcasecmp (a # s) (b # t) =
     (if tolower a = tolower b then strcasecmp s t
      else of_char (tolower a) - of_char (tolower b))"

definition exts :: "string list" where
  "exts = [''.mkv'', ''.mp4'', ''.mov'', ''.webm'', ''.avi'']"

definition has_supported_extension :: "string \<Rightarrow> bool" where
  "has_supported_extension filename =
     (case strrchr filename (CHR ''.'') of
        None \<Rightarrow> False
      | Some dot \<Rightarrow> list_ex (\<lambda>e. strcasecmp dot e = 0) exts)"

definition get_basename :: "string \<Rightarrow> string" where
  "get_basename path =
     (case strrchr path (CHR ''/'') of Some slash \<Rightarrow> tl slash | None \<Rightarrow> path)"

text \<open>
  \<^verbatim>\<open>shell_escape_single\<close>: the loop walks the input and appends to the output buffer,
  which starts with one single quote; \<open>out\<close> is what has been written so far. The
  buffer of \<open>4 * len + 4\<close> bytes holds the longest possible result.
\<close>

definition squote :: char where
  "squote = CHR 0x27"

definition backslash :: char where
  "backslash = CHR 0x5C"

fun shell_escape_loop :: "string \<Rightarrow> string \<Rightarrow> string" where
  "shell_escape_loop [] out = out"
| "shell_escape_loop (c # input) out =
     (if c = squote
      then shell_escape_loop input (out @ [squote, backslash, squote, squote])
      else shell_escape_loop input (out @ [c]))"

definition shell_escape_single :: "string \<Rightarrow> string" where
  "shell_escape_single input = shell_escape_loop input [squote] @ [squote]"

subsection \<open>Single quoting as the POSIX shell reads it\<close>

text \<open>
  The reading of one shell word made of single-quoted parts and backslash escapes, after
  the rules of the POSIX shell: inside single quotes every character stands for itself up
  to the closing quote; outside, a backslash makes the next character literal, a single
  quote opens a quoted part. Any other character outside quotes, an unterminated quote and
  a trailing backslash are rejected. The first argument tells whether the reader is inside
  single quotes.
\<close>

fun sh_word :: "bool \<Rightarrow> string \<Rightarrow> string option" where
  "sh_word False [] = Some []"
| "sh_word True [] = None"
| "sh_word True (c # cs) =
     (if c = squote then sh_word False cs else map_option ((#) c) (sh_word True cs))"
| "sh_word False (c # cs) =
     (if c = squote then sh_word True cs
      else if c = backslash then
        (case cs of [] \<Rightarrow> None | d # ds \<Rightarrow> map_option ((#) d) (sh_word False ds))
      else None)"

section \<open>Formatted output into fixed buffers\<close>

text \<open>
  Undefined behaviour of the C program is a value of the model: a write past the end of
  a fixed buffer.
\<close>

datatype error = Buffer_Overflow

text \<open>
  \<^verbatim>\<open>snprintf(buf, sz, ...)\<close> into an empty buffer keeps the first \<open>sz - 1\<close>
  characters of the formatted text \<open>s\<close>. \<open>snprintf_end\<close> is the idiom
  \<^verbatim>\<open>snprintf(buf + strlen(buf), sz - strlen(buf), ...)\<close> on a buffer of \<open>sz\<close> bytes
  holding \<open>buf\<close>. \<^verbatim>\<open>strcat(dest, src)\<close> has no bound: it overflows a buffer of
  \<open>sz\<close> bytes unless the result and its terminator fit.
\<close>

definition snprintf :: "nat \<Rightarrow> string \<Rightarrow> string" where
  "snprintf sz s = take (sz - 1) s"

definition snprintf_end :: "nat \<Rightarrow> string \<Rightarrow> string \<Rightarrow> string" where
  "snprintf_end sz buf s = buf @ take (sz - length buf - 1) s"

definition strcat :: "nat \<Rightarrow> string \<Rightarrow> string \<Rightarrow> error + string" where
  "strcat sz dest src =
     (if length dest + length src < sz then Inr (dest @ src) else Inl Buffer_Overflow)"

text \<open>The text of \<^verbatim>\<open>%d\<close> for a value that is not negative.\<close>

fun printf_d :: "nat \<Rightarrow> string" where
  "printf_d n =
     (if n < 10 then [char_of (48 + n)]
      else printf_d (n div 10) @ [char_of (48 + n mod 10)])"

definition PATH_BUF_SIZE :: nat where
  "PATH_BUF_SIZE = 4096"

definition COLOR_GREEN :: string where
  "COLOR_GREEN = CHR 0x1B # ''[32m''"

definition COLOR_RED :: string where
  "COLOR_RED = CHR 0x1B # ''[31m''"

definition COLOR_RESET :: string where
  "COLOR_RESET = CHR 0x1B # ''[0m''"


section \<open>The file analyser \<^verbatim>\<open>check_file\<close>\<close>

text \<open>
  The counters of \<^verbatim>\<open>Summary\<close> are C \<^verbatim>\<open>int\<close>s, 32 bits in two's complement, read
  with \<open>sint\<close>. The program changes them with \<^verbatim>\<open>++\<close> only, which is \<open>+ 1\<close> on the
  word: from \<^verbatim>\<open>INT_MAX\<close> the counter wraps around to \<^verbatim>\<open>INT_MIN\<close>, as it does in the
  compiled program.
\<close>

record Summary =
  total_count :: "32 word"
  ok :: "32 word"
  not_supported :: "32 word"
  errors :: "32 word"


text \<open>The global mode flags that \<^verbatim>\<open>main\<close> sets from the command line.\<close>

record globals =
  brief_mode :: bool
  skip_ok :: bool
  skip_unfixable :: bool

text \<open>
  What the program reads of an opened \<^verbatim>\<open>AVFormatContext\<close>: \<open>iformat_name\<close> is
  \<^verbatim>\<open>iformat->name\<close> when both pointers are set, \<open>streams\<close> is the array of
  \<^verbatim>\<open>nb_streams\<close> streams. \<open>probe\<close> is the outcome of \<^verbatim>\<open>avformat_open_input\<close>
  followed by \<^verbatim>\<open>avformat_find_stream_info\<close> on the path, with the negative return
  value of the call that failed.
\<close>

record AVFormatContext =
  iformat_name :: "string option"
  streams :: "AVStream list"

datatype probe =
    Open_Failure int
  | Stream_Info_Failure int
  | Probe_Ok AVFormatContext

text \<open>
  The two library functions that turn values into text: \<^verbatim>\<open>av_strerror\<close> (the
  description of an error code) and \<^verbatim>\<open>avcodec_get_name\<close>.
\<close>

record libav =
  av_strerror :: "int \<Rightarrow> string"
  avcodec_get_name :: "AVCodecID \<Rightarrow> string"

text \<open>
  Standard output, one constructor for each \<^verbatim>\<open>printf\<close> call of \<^verbatim>\<open>check_file\<close> and
  \<^verbatim>\<open>print_ffmpeg_error\<close>, with the arguments of its format string. The name of the
  media type of a stream is a null pointer unless the stream is video, audio or subtitle;
  both loops that print it skip every other stream first, and the model writes the text
  \<open>(null)\<close> in that dead branch.
\<close>

datatype printed =
    P_ffmpeg_error string string
  | P_open_error string int
  | P_stream_info_error string int
  | P_brief string string
  | P_header string
  | P_container string bool
  | P_stream nat string string string bool
  | P_bitmap_note nat string
  | P_overall bool
  | P_remux string
  | P_remux_hint
  | P_transcode string
  | P_blank

definition print_ffmpeg_error :: "libav \<Rightarrow> string \<Rightarrow> int \<Rightarrow> printed" where
  "print_ffmpeg_error lib prefix_str errnum =
     (let errbuf = snprintf 256 (av_strerror lib errnum) in P_ffmpeg_error prefix_str errbuf)"

subsection \<open>Brief mode (lines 212 to 259)\<close>

text \<open>
  \<^verbatim>\<open>linelen += snprintf(line + linelen, sizeof(line) - linelen, ...)\<close> on the buffer
  \<^verbatim>\<open>line[8192]\<close>: \<^verbatim>\<open>snprintf\<close> returns the length of the whole formatted text, so after a
  truncated write \<open>linelen\<close> can exceed the buffer, and the next write is out of bounds.
\<close>

record brief_state =
  line :: string
  linelen :: nat
  has_unsupported :: bool

definition brief_snprintf :: "brief_state \<Rightarrow> string \<Rightarrow> error + brief_state" where
  "brief_snprintf b s =
     (if linelen b > 8192 then Inl Buffer_Overflow
      else Inr (b\<lparr>line := take (linelen b) (line b) @ take (8192 - linelen b - 1) s,
                  linelen := linelen b + length s\<rparr>))"

fun brief_loop :: "libav \<Rightarrow> nat \<Rightarrow> AVStream list \<Rightarrow> brief_state \<Rightarrow> error + brief_state" where
  "brief_loop lib i [] b = Inr b"
| "brief_loop lib i (st # sts) b =
     (let par = codecpar st in
      if \<not> is_media_stream (codec_type par) then brief_loop lib (i + 1) sts b
      else
        let lang = (case language st of Some v \<Rightarrow> v | None \<Rightarrow> ''und'');
            codec = avcodec_get_name lib (codec_id par);
            (type, supported) =
              (if codec_type par = AVMEDIA_TYPE_VIDEO
               then (''video'', is_video_codec_supported par)
               else if codec_type par = AVMEDIA_TYPE_AUDIO
               then (''audio'', is_audio_codec_supported (codec_id par))
               else if codec_type par = AVMEDIA_TYPE_SUBTITLE
               then (''subtitle'', is_subtitle_codec_supported (codec_id par))
               else (''(null)'', True));
            b1 = (if \<not> supported then b\<lparr>has_unsupported := True\<rparr> else b)
        in case brief_snprintf b1
                  ((if supported then COLOR_GREEN else COLOR_RED) @ ''['' @ printf_d i @ '':'' @
                   type @ '':'' @ codec @ '':'' @ lang @ '']'' @ COLOR_RESET) of
             Inl e \<Rightarrow> Inl e
           | Inr b2 \<Rightarrow> brief_loop lib (i + 1) sts b2)"

definition check_file_brief ::
  "libav \<Rightarrow> string \<Rightarrow> AVFormatContext \<Rightarrow> string \<Rightarrow> bool \<Rightarrow> Summary \<Rightarrow>
   error + printed list \<times> Summary" where
  "check_file_brief lib filename fmt_ctx container container_ok summary =
     (let b0 = \<lparr>line = [], linelen = 0, has_unsupported = False\<rparr>;
          r0 = (if \<not> container_ok
                then map_sum (\<lambda>e. e) (\<lambda>b. b\<lparr>has_unsupported := True\<rparr>)
                       (brief_snprintf b0 (COLOR_RED @ ''[container:'' @ container @ '']'' @ COLOR_RESET))
                else Inr b0)
      in case r0 of
           Inl e \<Rightarrow> Inl e
         | Inr b1 \<Rightarrow>
             (case brief_loop lib 0 (streams fmt_ctx) b1 of
                Inl e \<Rightarrow> Inl e
              | Inr b \<Rightarrow>
                  if has_unsupported b
                  then Inr ([P_brief filename (line b)],
                            summary\<lparr>not_supported := not_supported summary + 1,
                                    total_count := total_count summary + 1\<rparr>)
                  else Inr ([], summary\<lparr>ok := ok summary + 1,
                                        total_count := total_count summary + 1\<rparr>)))"

subsection \<open>Verbose mode: the first pass over the streams (lines 262 to 290)\<close>

text \<open>
  The five local flags of the pass. \<open>first_pass_stream\<close> is the body of the loop for
  one stream, \<open>first_pass\<close> the loop, and \<open>analyse\<close> the loop run from the initial
  values of lines 262 to 265.
\<close>

record outcome =
  all_supported :: bool
  has_video :: bool
  has_audio :: bool
  can_transcode :: bool
  has_unsupported_bitmap_subtitle :: bool

definition first_pass_stream :: "AVStream \<Rightarrow> outcome \<Rightarrow> outcome" where
  "first_pass_stream st f =
     (let par = codecpar st in
      if \<not> is_media_stream (codec_type par) then f
      else
        let (supported, f1) =
              (if codec_type par = AVMEDIA_TYPE_VIDEO then
                 (let supported = is_video_codec_supported par;
                      f1 = f\<lparr>has_video := True\<rparr>
                  in (supported, if \<not> supported then f1\<lparr>can_transcode := True\<rparr> else f1))
               else if codec_type par = AVMEDIA_TYPE_AUDIO then
                 (let supported = is_audio_codec_supported (codec_id par);
                      f1 = f\<lparr>has_audio := True\<rparr>
                  in (supported, if \<not> supported then f1\<lparr>can_transcode := True\<rparr> else f1))
               else if codec_type par = AVMEDIA_TYPE_SUBTITLE then
                 (let supported = is_subtitle_codec_supported (codec_id par)
                  in (supported,
                      if \<not> supported then
                        (if is_bitmap_subtitle (codec_id par)
                         then f\<lparr>has_unsupported_bitmap_subtitle := True\<rparr>
                         else f\<lparr>can_transcode := True\<rparr>)
                      else f))
               else (True, f))
        in if \<not> supported then f1\<lparr>all_supported := False\<rparr> else f1)"

fun first_pass :: "AVStream list \<Rightarrow> outcome \<Rightarrow> outcome" where
  "first_pass [] f = f"
| "first_pass (st # sts) f = first_pass sts (first_pass_stream st f)"

definition analyse :: "bool \<Rightarrow> AVStream list \<Rightarrow> outcome" where
  "analyse container_ok sts =
     first_pass sts
       \<lparr>all_supported = container_ok, has_video = False, has_audio = False,
        can_transcode = False, has_unsupported_bitmap_subtitle = False\<rparr>"

subsection \<open>Verbose mode: the report of the streams (lines 306 to 338)\<close>

fun report_streams :: "libav \<Rightarrow> nat \<Rightarrow> AVStream list \<Rightarrow> printed list" where
  "report_streams lib i [] = []"
| "report_streams lib i (st # sts) =
     (let par = codecpar st in
      if \<not> is_media_stream (codec_type par) then report_streams lib (i + 1) sts
      else
        let lang = (case language st of Some v \<Rightarrow> v | None \<Rightarrow> ''und'');
            codec = avcodec_get_name lib (codec_id par);
            (type, supported) =
              (if codec_type par = AVMEDIA_TYPE_VIDEO
               then (''video'', is_video_codec_supported par)
               else if codec_type par = AVMEDIA_TYPE_AUDIO
               then (''audio'', is_audio_codec_supported (codec_id par))
               else if codec_type par = AVMEDIA_TYPE_SUBTITLE
               then (''subtitle'', is_subtitle_codec_supported (codec_id par))
               else (''(null)'', True))
        in P_stream i type codec lang supported #
           (if \<not> supported \<and> codec_type par = AVMEDIA_TYPE_SUBTITLE \<and>
               is_bitmap_subtitle (codec_id par)
            then [P_bitmap_note i (avcodec_get_name lib (codec_id par))] else []) @
           report_streams lib (i + 1) sts)"


subsection \<open>Verbose mode: the remux command (lines 344 to 358)\<close>

definition remux_command :: "string \<Rightarrow> string" where
  "remux_command filepath =
     (let remuxed_basename =
            snprintf PATH_BUF_SIZE (''remuxed_'' @ get_basename filepath @ ''.mkv'');
          escaped_in = shell_escape_single filepath;
          escaped_out = shell_escape_single remuxed_basename
      in snprintf 8192 (''ffmpeg -i '' @ escaped_in @ '' -map 0 -c copy '' @ escaped_out))"

subsection \<open>Verbose mode: the transcode command (lines 360 to 427)\<close>

text \<open>
  The local variables of the block: the command buffer \<^verbatim>\<open>cmd[8192]\<close>, the three
  counters and the three option buffers of 1024 bytes.
\<close>

record transcode_state =
  cmd :: string
  v_cnt :: nat
  a_cnt :: nat
  s_cnt :: nat
  v_opts :: string
  a_opts :: string
  s_opts :: string
  had_video :: bool
  had_audio :: bool
  had_sub :: bool

definition transcode_stream :: "AVStream \<Rightarrow> transcode_state \<Rightarrow> error + transcode_state" where
  "transcode_stream st t =
     (let par = codecpar st in
      if \<not> is_media_stream (codec_type par) then Inr t
      else if codec_type par = AVMEDIA_TYPE_VIDEO then
        (let supported = is_video_codec_supported par in
         case (if \<not> had_video t then strcat 8192 (cmd t) '' -map 0:v'' else Inr (cmd t)) of
           Inl e \<Rightarrow> Inl e
         | Inr c \<Rightarrow>
             Inr (t\<lparr>cmd := c, had_video := True,
                    v_opts := snprintf_end 1024 (v_opts t)
                      ('' -c:v:'' @ printf_d (v_cnt t) @ '' '' @
                       (if supported then ''copy'' else ''libx264'')),
                    v_cnt := v_cnt t + 1\<rparr>))
      else if codec_type par = AVMEDIA_TYPE_AUDIO then
        (let supported = is_audio_codec_supported (codec_id par) in
         case (if \<not> had_audio t then strcat 8192 (cmd t) '' -map 0:a'' else Inr (cmd t)) of
           Inl e \<Rightarrow> Inl e
         | Inr c \<Rightarrow>
             Inr (t\<lparr>cmd := c, had_audio := True,
                    a_opts := snprintf_end 1024 (a_opts t)
                      ('' -c:a:'' @ printf_d (a_cnt t) @ '' '' @
                       (if supported then ''copy'' else ''aac'')),
                    a_cnt := a_cnt t + 1\<rparr>))
      else if codec_type par = AVMEDIA_TYPE_SUBTITLE then
        (let supported = is_subtitle_codec_supported (codec_id par) in
         case (if \<not> had_sub t then strcat 8192 (cmd t) '' -map 0:s'' else Inr (cmd t)) of
           Inl e \<Rightarrow> Inl e
         | Inr c \<Rightarrow>
             Inr (t\<lparr>cmd := c, had_sub := True,
                    s_opts :=
                      (if \<not> supported then
                         (if is_text_subtitle (codec_id par)
                          then snprintf_end 1024 (s_opts t)
                                 ('' -c:s:'' @ printf_d (s_cnt t) @ '' srt'')
                          else snprintf_end 1024 (s_opts t)
                                 ('' -c:s:'' @ printf_d (s_cnt t) @ '' copy''))
                       else snprintf_end 1024 (s_opts t)
                              ('' -c:s:'' @ printf_d (s_cnt t) @ '' copy'')),
                    s_cnt := s_cnt t + 1\<rparr>))
      else Inr t)"

fun transcode_loop :: "AVStream list \<Rightarrow> transcode_state \<Rightarrow> error + transcode_state" where
  "transcode_loop [] t = Inr t"
| "transcode_loop (st # sts) t =
     (case transcode_stream st t of Inl e \<Rightarrow> Inl e | Inr t' \<Rightarrow> transcode_loop sts t')"

definition fixed_basename :: "string \<Rightarrow> string" where
  "fixed_basename filepath =
     (let base = get_basename filepath in
      case strrchr base (CHR ''.'') of
        Some dot \<Rightarrow>
          snprintf PATH_BUF_SIZE
            (''fixed_'' @ take (length base - length dot) base @ ''.mkv'')
      | None \<Rightarrow> snprintf PATH_BUF_SIZE (''fixed_'' @ base @ ''.mkv''))"

definition transcode_command :: "string \<Rightarrow> AVStream list \<Rightarrow> error + string" where
  "transcode_command filepath sts =
     (let escaped_in = shell_escape_single filepath;
          escaped_out = shell_escape_single (fixed_basename filepath);
          t0 = \<lparr>cmd = snprintf 8192 (''ffmpeg -i '' @ escaped_in),
                v_cnt = 0, a_cnt = 0, s_cnt = 0,
                v_opts = [], a_opts = [], s_opts = [],
                had_video = False, had_audio = False, had_sub = False\<rparr>
      in case transcode_loop sts t0 of
           Inl e \<Rightarrow> Inl e
         | Inr t \<Rightarrow>
             (case strcat 8192 (cmd t) (v_opts t) of
                Inl e \<Rightarrow> Inl e
              | Inr c1 \<Rightarrow>
                  (case strcat 8192 c1 (a_opts t) of
                     Inl e \<Rightarrow> Inl e
                   | Inr c2 \<Rightarrow>
                       (case strcat 8192 c2 (s_opts t) of
                          Inl e \<Rightarrow> Inl e
                        | Inr c3 \<Rightarrow> Inr (snprintf_end 8192 c3 ('' '' @ escaped_out))))))"

subsection \<open>The whole function\<close>

text \<open>
  The result is what the call prints, in order, and the updated summary. A call that
  writes past a buffer has no defined result; it is \<open>Inl Buffer_Overflow\<close>, whatever it
  printed before.
\<close>

definition check_file_verbose ::
  "libav \<Rightarrow> globals \<Rightarrow> string \<Rightarrow> string \<Rightarrow> AVFormatContext \<Rightarrow> string \<Rightarrow> bool \<Rightarrow>
   Summary \<Rightarrow> error + printed list \<times> Summary" where
  "check_file_verbose lib g filepath filename fmt_ctx container container_ok summary =
     (let f = analyse container_ok (streams fmt_ctx) in
      if skip_ok g \<and> all_supported f then
        Inr ([], summary\<lparr>ok := ok summary + 1, total_count := total_count summary + 1\<rparr>)
      else if skip_unfixable g \<and> \<not> all_supported f \<and> \<not> can_transcode f \<and>
              has_unsupported_bitmap_subtitle f then
        Inr ([], summary\<lparr>not_supported := not_supported summary + 1,
                         total_count := total_count summary + 1\<rparr>)
      else
        let report =
              [P_header filename, P_container container container_ok] @
              report_streams lib 0 (streams fmt_ctx) @
              [P_overall (all_supported f)];
            remux =
              (if \<not> all_supported f \<and> (has_video f \<or> has_audio f)
               then [P_remux (remux_command filepath), P_remux_hint] else []);
            summary' =
              (if all_supported f then summary\<lparr>ok := ok summary + 1\<rparr>
               else summary\<lparr>not_supported := not_supported summary + 1\<rparr>)
              \<lparr>total_count := total_count summary + 1\<rparr>
        in if \<not> all_supported f \<and> (has_video f \<or> has_audio f) \<and> can_transcode f then
             (case transcode_command filepath (streams fmt_ctx) of
                Inl e \<Rightarrow> Inl e
              | Inr c \<Rightarrow> Inr (report @ remux @ [P_transcode c, P_blank], summary'))
           else Inr (report @ remux @ [P_blank], summary'))"

definition check_file ::
  "libav \<Rightarrow> globals \<Rightarrow> string \<Rightarrow> bool \<Rightarrow> probe \<Rightarrow> Summary \<Rightarrow>
   error + printed list \<times> Summary" where
  "check_file lib g filepath show_full_path pr summary =
     (let filename = (if show_full_path then filepath else get_basename filepath) in
      if \<not> has_supported_extension filepath then Inr ([], summary)
      else case pr of
        Open_Failure ret \<Rightarrow>
          Inr ([if \<not> brief_mode g then print_ffmpeg_error lib filename ret
                else P_open_error filename ret],
               summary\<lparr>errors := errors summary + 1\<rparr>)
      | Stream_Info_Failure ret \<Rightarrow>
          Inr ([if \<not> brief_mode g then print_ffmpeg_error lib filename ret
                else P_stream_info_error filename ret],
               summary\<lparr>errors := errors summary + 1\<rparr>)
      | Probe_Ok fmt_ctx \<Rightarrow>
          (let container = (case iformat_name fmt_ctx of Some n \<Rightarrow> n | None \<Rightarrow> ''unknown'');
               container_ok = is_container_supported (Some container)
           in if brief_mode g
              then check_file_brief lib filename fmt_ctx container container_ok summary
              else check_file_verbose lib g filepath filename fmt_ctx container container_ok
                     summary))"


section \<open>Notions of the specification\<close>

text \<open>
  A stream counts when its media type is video, audio or subtitle; its classification is
  the one of the classifier for its media type.
\<close>

definition is_media :: "AVStream \<Rightarrow> bool" where
  "is_media st = is_media_stream (codec_type (codecpar st))"

definition stream_supported :: "AVStream \<Rightarrow> bool" where
  "stream_supported st =
     (let par = codecpar st in
      if codec_type par = AVMEDIA_TYPE_VIDEO then is_video_codec_supported par
      else if codec_type par = AVMEDIA_TYPE_AUDIO then is_audio_codec_supported (codec_id par)
      else if codec_type par = AVMEDIA_TYPE_SUBTITLE
      then is_subtitle_codec_supported (codec_id par)
      else True)"

definition is_bitmap_subtitle_stream :: "AVStream \<Rightarrow> bool" where
  "is_bitmap_subtitle_stream st =
     (codec_type (codecpar st) = AVMEDIA_TYPE_SUBTITLE \<and>
      is_bitmap_subtitle (codec_id (codecpar st)))"

text \<open>
  The escaped form of a string in the specification's words: every single quote becomes
  the four characters quote, backslash, quote, quote, and the whole is put between single
  quotes.
\<close>

definition spec_escape :: "string \<Rightarrow> string" where
  "spec_escape s =
     [squote] @
     concat (map (\<lambda>c. if c = squote then [squote, backslash, squote, squote] else [c]) s) @
     [squote]"



text \<open>
  The outcome flags that \<^verbatim>\<open>check_file\<close> computes for an opened file in verbose mode:
  the container name falls back to \<open>unknown\<close>.
\<close>

definition container_name :: "AVFormatContext \<Rightarrow> string" where
  "container_name fmt_ctx = (case iformat_name fmt_ctx of Some n \<Rightarrow> n | None \<Rightarrow> ''unknown'')"

definition file_outcome :: "AVFormatContext \<Rightarrow> outcome" where
  "file_outcome fmt_ctx =
     analyse (is_container_supported (Some (container_name fmt_ctx))) (streams fmt_ctx)"

definition has_audio_or_video :: "AVStream list \<Rightarrow> bool" where
  "has_audio_or_video sts =
     (\<exists>st \<in> set sts. codec_type (codecpar st) = AVMEDIA_TYPE_VIDEO \<or>
                      codec_type (codecpar st) = AVMEDIA_TYPE_AUDIO)"

text \<open>
  The transcode command in the specification's words. The media types of the counted
  streams in first-seen order give the \<open>-map\<close> selectors. The codec of a stream is
  \<open>copy\<close> when it is supported, else \<open>libx264\<close> for video and \<open>aac\<close> for audio; for a
  subtitle it is \<open>srt\<close> when the stream is unsupported but text, else \<open>copy\<close> (for a
  bitmap subtitle, and for every other unsupported subtitle, on which the specification is
  silent). The flag of a stream carries the number of earlier streams of its media type.
\<close>

definition first_seen :: "'a list \<Rightarrow> 'a list" where
  "first_seen xs = rev (remdups (rev xs))"

definition media_types :: "AVStream list \<Rightarrow> AVMediaType list" where
  "media_types sts = map (\<lambda>st. codec_type (codecpar st)) (filter is_media sts)"

fun type_letter :: "AVMediaType \<Rightarrow> char" where
  "type_letter AVMEDIA_TYPE_VIDEO = CHR ''v''"
| "type_letter AVMEDIA_TYPE_AUDIO = CHR ''a''"
| "type_letter AVMEDIA_TYPE_SUBTITLE = CHR ''s''"
| "type_letter _ = CHR ''?''"

definition spec_selectors :: "AVStream list \<Rightarrow> string" where
  "spec_selectors sts =
     concat (map (\<lambda>ty. '' -map 0:'' @ [type_letter ty]) (first_seen (media_types sts)))"

definition spec_codec :: "AVStream \<Rightarrow> string" where
  "spec_codec st =
     (if stream_supported st then ''copy''
      else if codec_type (codecpar st) = AVMEDIA_TYPE_VIDEO then ''libx264''
      else if codec_type (codecpar st) = AVMEDIA_TYPE_AUDIO then ''aac''
      else if is_text_subtitle (codec_id (codecpar st)) then ''srt''
      else ''copy'')"

definition spec_flag :: "nat \<Rightarrow> AVStream \<Rightarrow> string" where
  "spec_flag n st =
     '' -c:'' @ [type_letter (codec_type (codecpar st))] @ '':'' @ printf_d n @ '' '' @
     spec_codec st"

definition of_type :: "AVMediaType \<Rightarrow> AVStream list \<Rightarrow> AVStream list" where
  "of_type ty sts = filter (\<lambda>st. codec_type (codecpar st) = ty) sts"

text \<open>The flags in original index order, over all counted streams.\<close>

definition spec_flags_index_order :: "AVStream list \<Rightarrow> string" where
  "spec_flags_index_order sts =
     concat (map (\<lambda>i. if is_media (sts ! i)
                       then spec_flag
                              (length (of_type (codec_type (codecpar (sts ! i))) (take i sts)))
                              (sts ! i)
                       else [])
               [0 ..< length sts])"

text \<open>The flags of the streams of one media type, in original index order.\<close>

definition type_flags :: "AVMediaType \<Rightarrow> AVStream list \<Rightarrow> string" where
  "type_flags ty sts = concat (map (\<lambda>(n, st). spec_flag n st) (enumerate 0 (of_type ty sts)))"

text \<open>The subtitle flags when every subtitle stream is copied.\<close>

definition copy_flags :: "nat \<Rightarrow> string" where
  "copy_flags k = concat (map (\<lambda>n. '' -c:s:'' @ printf_d n @ '' copy'') [0 ..< k])"

text \<open>
  The options of the command as the program lays them out: the selectors, then the
  video flags, the audio flags and the subtitle flags, each group cut to the 1023
  characters its buffer holds.
\<close>

definition grouped_options :: "AVStream list \<Rightarrow> string" where
  "grouped_options sts =
     spec_selectors sts @
     snprintf 1024 (type_flags AVMEDIA_TYPE_VIDEO sts) @
     snprintf 1024 (type_flags AVMEDIA_TYPE_AUDIO sts) @
     snprintf 1024 (type_flags AVMEDIA_TYPE_SUBTITLE sts)"

text \<open>
  The state of the loop of the transcode block before the first stream, on the command
  \<open>c0\<close>, and the state the specification's notions give after the streams \<open>sts\<close>.
\<close>

definition t_init :: "string \<Rightarrow> transcode_state" where
  "t_init c0 = \<lparr>cmd = c0, v_cnt = 0, a_cnt = 0, s_cnt = 0,
                v_opts = [], a_opts = [], s_opts = [],
                had_video = False, had_audio = False, had_sub = False\<rparr>"

definition t_after :: "string \<Rightarrow> AVStream list \<Rightarrow> transcode_state" where
  "t_after c0 sts =
     \<lparr>cmd = c0 @ spec_selectors sts,
      v_cnt = length (of_type AVMEDIA_TYPE_VIDEO sts),
      a_cnt = length (of_type AVMEDIA_TYPE_AUDIO sts),
      s_cnt = length (of_type AVMEDIA_TYPE_SUBTITLE sts),
      v_opts = snprintf 1024 (type_flags AVMEDIA_TYPE_VIDEO sts),
      a_opts = snprintf 1024 (type_flags AVMEDIA_TYPE_AUDIO sts),
      s_opts = snprintf 1024 (type_flags AVMEDIA_TYPE_SUBTITLE sts),
      had_video = (of_type AVMEDIA_TYPE_VIDEO sts \<noteq> []),
      had_audio = (of_type AVMEDIA_TYPE_AUDIO sts \<noteq> []),
      had_sub = (of_type AVMEDIA_TYPE_SUBTITLE sts \<noteq> [])\<rparr>"

text \<open>
  The whole transcode command when nothing is cut: with the flags in original index
  order, as the specification words it, and with the flags grouped by media type.
\<close>

definition claimed_transcode_command :: "string \<Rightarrow> AVStream list \<Rightarrow> string" where
  "claimed_transcode_command filepath sts =
     ''ffmpeg -i '' @ spec_escape filepath @
     spec_selectors sts @ spec_flags_index_order sts @
     '' '' @ spec_escape (fixed_basename filepath)"

definition spec_transcode_command :: "string \<Rightarrow> AVStream list \<Rightarrow> string" where
  "spec_transcode_command filepath sts =
     ''ffmpeg -i '' @ spec_escape filepath @
     spec_selectors sts @
     type_flags AVMEDIA_TYPE_VIDEO sts @
     type_flags AVMEDIA_TYPE_AUDIO sts @
     type_flags AVMEDIA_TYPE_SUBTITLE sts @
     '' '' @ spec_escape (fixed_basename filepath)"

text \<open>The remux command in the specification's words.\<close>

definition spec_remux_command :: "string \<Rightarrow> string" where
  "spec_remux_command filepath =
     ''ffmpeg -i '' @ spec_escape filepath @ '' -map 0 -c copy '' @
     spec_escape (''remuxed_'' @ get_basename filepath @ ''.mkv'')"

subsection \<open>Example inputs\<close>

definition video_stream :: "AVCodecID \<Rightarrow> 32 word \<Rightarrow> int \<Rightarrow> AVStream" where
  "video_stream cid tag prof =
     \<lparr>codecpar = \<lparr>codec_type = AVMEDIA_TYPE_VIDEO, codec_id = cid, codec_tag = tag,
                  profile = prof\<rparr>,
      language = None\<rparr>"

definition audio_stream :: "AVCodecID \<Rightarrow> AVStream" where
  "audio_stream cid =
     \<lparr>codecpar = \<lparr>codec_type = AVMEDIA_TYPE_AUDIO, codec_id = cid, codec_tag = 0,
                  profile = - 99\<rparr>,
      language = Some ''eng''\<rparr>"

definition subtitle_stream :: "AVCodecID \<Rightarrow> AVStream" where
  "subtitle_stream cid =
     \<lparr>codecpar = \<lparr>codec_type = AVMEDIA_TYPE_SUBTITLE, codec_id = cid, codec_tag = 0,
                  profile = - 99\<rparr>,
      language = Some ''eng''\<rparr>"

text \<open>The names \<^verbatim>\<open>avcodec_get_name\<close> gives the codecs of the examples.\<close>

fun ex_codec_name :: "AVCodecID \<Rightarrow> string" where
  "ex_codec_name AV_CODEC_ID_H264 = ''h264''"
| "ex_codec_name AV_CODEC_ID_MPEG4 = ''mpeg4''"
| "ex_codec_name AV_CODEC_ID_AAC = ''aac''"
| "ex_codec_name AV_CODEC_ID_MP3 = ''mp3''"
| "ex_codec_name AV_CODEC_ID_DTS = ''dts''"
| "ex_codec_name AV_CODEC_ID_HDMV_PGS_SUBTITLE = ''hdmv_pgs_subtitle''"
| "ex_codec_name AV_CODEC_ID_DVB_SUBTITLE = ''dvb_subtitle''"
| "ex_codec_name _ = ''unknown_codec''"

definition ex_strerror :: "int \<Rightarrow> string" where
  "ex_strerror errnum = ''Invalid data found when processing input''"

definition ex_lib :: libav where
  "ex_lib = \<lparr>av_strerror = ex_strerror, avcodec_get_name = ex_codec_name\<rparr>"

definition verbose_flags :: globals where
  "verbose_flags = \<lparr>brief_mode = False, skip_ok = False, skip_unfixable = False\<rparr>"

definition skip_unfixable_flags :: globals where
  "skip_unfixable_flags = \<lparr>brief_mode = False, skip_ok = False, skip_unfixable = True\<rparr>"

definition brief_flags :: globals where
  "brief_flags = \<lparr>brief_mode = True, skip_ok = False, skip_unfixable = False\<rparr>"

definition summary0 :: Summary where
  "summary0 = \<lparr>total_count = 0, ok = 0, not_supported = 0, errors = 0\<rparr>"

text \<open>An AVI file with an Xvid video stream and an AAC audio stream, in both orders.\<close>

definition ex_xvid_avi :: AVFormatContext where
  "ex_xvid_avi =
     \<lparr>iformat_name = Some ''avi'',
      streams = [video_stream AV_CODEC_ID_MPEG4 (fourcc ''XVID'') 0,
                 audio_stream AV_CODEC_ID_AAC]\<rparr>"

definition ex_audio_first_avi :: AVFormatContext where
  "ex_audio_first_avi =
     \<lparr>iformat_name = Some ''avi'',
      streams = [audio_stream AV_CODEC_ID_AAC,
                 video_stream AV_CODEC_ID_MPEG4 (fourcc ''XVID'') 0]\<rparr>"

text \<open>A fully supported AVI file.\<close>

definition ex_ok_avi :: AVFormatContext where
  "ex_ok_avi =
     \<lparr>iformat_name = Some ''avi'',
      streams = [video_stream AV_CODEC_ID_H264 (fourcc ''H264'') 100,
                 audio_stream AV_CODEC_ID_MP3]\<rparr>"

text \<open>A Matroska file whose only unsupported stream is a PGS subtitle.\<close>

definition ex_pgs_mkv :: AVFormatContext where
  "ex_pgs_mkv =
     \<lparr>iformat_name = Some ''matroska,webm'',
      streams = [video_stream AV_CODEC_ID_H264 0 100,
                 audio_stream AV_CODEC_ID_AAC,
                 subtitle_stream AV_CODEC_ID_HDMV_PGS_SUBTITLE]\<rparr>"

text \<open>A Matroska file that holds nothing but a DVB subtitle stream.\<close>

definition ex_subs_only_mkv :: AVFormatContext where
  "ex_subs_only_mkv =
     \<lparr>iformat_name = Some ''matroska,webm'',
      streams = [subtitle_stream AV_CODEC_ID_DVB_SUBTITLE]\<rparr>"

text \<open>
  A file with a DTS audio stream and two subtitle streams, one text and one bitmap.
\<close>

definition ex_dts_subs_mkv :: AVFormatContext where
  "ex_dts_subs_mkv =
     \<lparr>iformat_name = Some ''matroska,webm'',
      streams = [video_stream AV_CODEC_ID_H264 0 100,
                 audio_stream AV_CODEC_ID_DTS,
                 subtitle_stream AV_CODEC_ID_SUBRIP,
                 subtitle_stream AV_CODEC_ID_HDMV_PGS_SUBTITLE]\<rparr>"

text \<open>
  An absolute path of 2265 characters through nine directories whose names are 250
  single quotes each.
\<close>

definition ex_quoted_path :: string where
  "ex_quoted_path = concat (replicate 9 (CHR ''/'' # replicate 250 squote)) @ ''/a.mkv''"

text \<open>The commands and the brief line the program prints for the examples.\<close>

definition ex_xvid_remux_cmd :: string where
  "ex_xvid_remux_cmd =
     ''ffmpeg -i 'movie.avi' -map 0 -c copy 'remuxed_movie.avi.mkv'' @ [squote]"

definition ex_xvid_transcode_cmd :: string where
  "ex_xvid_transcode_cmd =
     ''ffmpeg -i 'movie.avi' '' @
     ''-map 0:v -map 0:a -c:v:0 libx264 -c:a:0 copy'' @
     '' 'fixed_movie.mkv'' @ [squote]"

definition ex_audio_first_transcode_cmd :: string where
  "ex_audio_first_transcode_cmd =
     ''ffmpeg -i 'movie.avi' -map 0:a -map 0:v -c:v:0 libx264 -c:a:0 copy 'fixed_movie.mkv'' @
     [squote]"

definition ex_audio_first_claimed_cmd :: string where
  "ex_audio_first_claimed_cmd =
     ''ffmpeg -i 'movie.avi' -map 0:a -map 0:v -c:a:0 copy -c:v:0 libx264 'fixed_movie.mkv'' @
     [squote]"

definition ex_dts_subs_transcode_cmd :: string where
  "ex_dts_subs_transcode_cmd =
     ''ffmpeg -i 'movie.mkv' -map 0:v -map 0:a -map 0:s'' @
     '' -c:v:0 copy -c:a:0 aac -c:s:0 copy -c:s:1 copy 'fixed_movie.mkv'' @ [squote]"

definition ex_pgs_remux_cmd :: string where
  "ex_pgs_remux_cmd =
     ''ffmpeg -i 'movie.mkv' -map 0 -c copy 'remuxed_movie.mkv.mkv'' @ [squote]"

definition ex_xvid_brief_line :: string where
  "ex_xvid_brief_line =
     COLOR_RED @ ''[0:video:mpeg4:und]'' @ COLOR_RESET @
     COLOR_GREEN @ ''[1:audio:aac:eng]'' @ COLOR_RESET"

text \<open>A Matroska file with one hundred DTS audio streams.\<close>

definition ex_many_audio :: "AVStream list" where
  "ex_many_audio = replicate 100 (audio_stream AV_CODEC_ID_DTS)"

text \<open>
  A Matroska file with one DTS audio stream and one hundred PGS subtitle streams, and the
  command the program builds for it: the subtitle flags stop inside the flag of stream 79.
\<close>

definition ex_many_subs :: "AVStream list" where
  "ex_many_subs =
     audio_stream AV_CODEC_ID_DTS # replicate 100 (subtitle_stream AV_CODEC_ID_HDMV_PGS_SUBTITLE)"

definition ex_many_subs_cmd :: string where
  "ex_many_subs_cmd =
     ''ffmpeg -i 'movie.mkv' -map 0:a -map 0:s -c:a:0 aac'' @
     copy_flags 79 @
     '' -c:s: 'fixed_movie.mkv'' @ [squote]"


section \<open>Properties of the classifiers\<close>

declare printf_d.simps [simp del]

lemma strstr_sublist: "(strstr h n = None) = (\<not> sublist n h)"
  by (induction h) (auto simp: sublist_Cons_right)

text \<open>
  Claim C1. A video stream is classified supported exactly when its codec is one of H264,
  HEVC, MPEG2, VP9, AV1, MJPEG, PNG, or it is MPEG4 with a codec tag outside the nine
  excluded tags and a profile other than advanced-simple and simple-studio. An MPEG4 stream
  with an excluded tag is unsupported whatever its profile. The nine tags are pairwise
  distinct and the comparison is case-sensitive: \<open>Xvid\<close> is not excluded.
\<close>

theorem C1_video_classification:
  "(is_video_codec_supported par \<longleftrightarrow>
      codec_id par \<in> spec_video_codecs \<or>
      (codec_id par = AV_CODEC_ID_MPEG4 \<and>
       codec_tag par \<notin> set (map fourcc spec_excluded_tag_names) \<and>
       profile par \<notin> spec_excluded_profiles)) \<and>
   (codec_id par = AV_CODEC_ID_MPEG4 \<and>
    codec_tag par \<in> set (map fourcc spec_excluded_tag_names) \<longrightarrow>
      \<not> is_video_codec_supported par) \<and>
   distinct (map fourcc spec_excluded_tag_names) \<and>
   fourcc ''Xvid'' \<notin> set (map fourcc spec_excluded_tag_names)"
proof (intro conjI)
  show main: "is_video_codec_supported par \<longleftrightarrow>
      codec_id par \<in> spec_video_codecs \<or>
      (codec_id par = AV_CODEC_ID_MPEG4 \<and>
       codec_tag par \<notin> set (map fourcc spec_excluded_tag_names) \<and>
       profile par \<notin> spec_excluded_profiles)"
    unfolding is_video_codec_supported_def spec_video_codecs_def
      spec_excluded_tag_names_def spec_excluded_profiles_def Let_def
    by simp
  show "codec_id par = AV_CODEC_ID_MPEG4 \<and>
    codec_tag par \<in> set (map fourcc spec_excluded_tag_names) \<longrightarrow>
      \<not> is_video_codec_supported par"
    unfolding main by (simp add: spec_video_codecs_def)
  show "distinct (map fourcc spec_excluded_tag_names)"
    by (simp add: spec_excluded_tag_names_def MKTAG_def)
  show "fourcc ''Xvid'' \<notin> set (map fourcc spec_excluded_tag_names)"
    by (simp add: spec_excluded_tag_names_def MKTAG_def)
qed

theorem C1_video_classification_witness:
  "codec_id (codecpar (video_stream AV_CODEC_ID_MPEG4 (fourcc ''XVID'') 0)) = AV_CODEC_ID_MPEG4 \<and>
   codec_tag (codecpar (video_stream AV_CODEC_ID_MPEG4 (fourcc ''XVID'') 0))
     \<in> set (map fourcc spec_excluded_tag_names) \<and>
   \<not> is_video_codec_supported (codecpar (video_stream AV_CODEC_ID_MPEG4 (fourcc ''XVID'') 0)) \<and>
   is_video_codec_supported (codecpar (video_stream AV_CODEC_ID_MPEG4 (fourcc ''Xvid'') 0))"
  using C1_video_classification
          [of "codecpar (video_stream AV_CODEC_ID_MPEG4 (fourcc ''XVID'') 0)"]
        C1_video_classification
          [of "codecpar (video_stream AV_CODEC_ID_MPEG4 (fourcc ''Xvid'') 0)"]
  by (simp add: video_stream_def spec_excluded_tag_names_def spec_excluded_profiles_def
        spec_video_codecs_def FF_PROFILE_MPEG4_ADVANCED_SIMPLE_def
        FF_PROFILE_MPEG4_SIMPLE_STUDIO_def)

text \<open>
  Claim C8. \<^verbatim>\<open>is_text_subtitle\<close> and \<^verbatim>\<open>is_subtitle_codec_supported\<close> return the same
  result for every codec identifier, true exactly on SRT, ASS, SSA, WEBVTT, MOV-TEXT,
  MICRODVD and plain TEXT.
\<close>

theorem C8_text_subtitle_same_set:
  "is_text_subtitle cid = is_subtitle_codec_supported cid \<and>
   (is_text_subtitle cid \<longleftrightarrow> cid \<in> spec_subtitle_codecs)"
  by (simp add: is_text_subtitle_def is_subtitle_codec_supported_def spec_subtitle_codecs_def)

text \<open>
  Claim C9. A container is classified supported exactly when its format name is present
  and one of the twelve names occurs in it as a substring. The name
  \<open>mov,mp4,m4a,3gp\<close> is supported; the empty name is not.
\<close>

theorem C9_container_classification:
  "(is_container_supported format_name \<longleftrightarrow>
      (\<exists>name. format_name = Some name \<and> (\<exists>k \<in> set spec_container_names. sublist k name))) \<and>
   is_container_supported (Some ''mov,mp4,m4a,3gp'') \<and>
   \<not> is_container_supported (Some [])"
proof (intro conjI)
  show "is_container_supported format_name \<longleftrightarrow>
      (\<exists>name. format_name = Some name \<and> (\<exists>k \<in> set spec_container_names. sublist k name))"
    by (cases format_name)
       (simp_all add: is_container_supported_def spec_container_names_def strstr_sublist)
  show "is_container_supported (Some ''mov,mp4,m4a,3gp'')"
    by (simp add: is_container_supported_def)
  show "\<not> is_container_supported (Some [])"
    by (simp add: is_container_supported_def)
qed

theorem C9_container_classification_witness:
  "is_container_supported (Some ''matroska,webm'') \<and>
   (\<exists>k \<in> set spec_container_names. sublist k ''matroska,webm'') \<and>
   \<not> is_container_supported (Some ''unknown'') \<and>
   \<not> (\<exists>k \<in> set spec_container_names. sublist k ''unknown'')"
proof -
  have a: "is_container_supported (Some ''matroska,webm'')"
    by (simp add: is_container_supported_def)
  have b: "\<not> is_container_supported (Some ''unknown'')"
    by (simp add: is_container_supported_def)
  show ?thesis
    using a b C9_container_classification [of "Some ''matroska,webm''"]
      C9_container_classification [of "Some ''unknown''"]
    by simp
qed

section \<open>Shell escaping\<close>

lemma shell_escape_loop_concat:
  "shell_escape_loop s out =
     out @ concat (map (\<lambda>c. if c = squote then [squote, backslash, squote, squote] else [c]) s)"
  by (induction s arbitrary: out) auto

lemma shell_escape_single_spec: "shell_escape_single s = spec_escape s"
  by (simp add: shell_escape_single_def spec_escape_def shell_escape_loop_concat)

lemma sh_word_inside:
  "sh_word True
     (concat (map (\<lambda>c. if c = squote then [squote, backslash, squote, squote] else [c]) s) @
      [squote]) = Some s"
  by (induction s) (auto simp: squote_def backslash_def)

text \<open>
  Claim C5. For every string, \<^verbatim>\<open>shell_escape_single\<close> returns the string between single
  quotes with each embedded single quote replaced by quote, backslash, quote, quote; read
  back by the single-quoting rules of the POSIX shell, the result is the original string.
\<close>

theorem C5_shell_escape_round_trip:
  "shell_escape_single s = spec_escape s \<and> sh_word False (shell_escape_single s) = Some s"
  by (simp add: shell_escape_single_spec)
     (simp add: spec_escape_def sh_word_inside)

theorem C5_shell_escape_round_trip_witness:
  "shell_escape_single ''it's a movie.mkv'' =
     [squote] @ ''it'' @ [squote, backslash, squote, squote] @ ''s a movie.mkv'' @ [squote] \<and>
   sh_word False (shell_escape_single ''it's a movie.mkv'') = Some ''it's a movie.mkv''"
  using C5_shell_escape_round_trip [of "''it's a movie.mkv''"]
  by (simp add: spec_escape_def squote_def backslash_def)


section \<open>The outcome flags\<close>


lemma first_pass_stream_all_supported:
  "all_supported (first_pass_stream st f) \<longleftrightarrow>
     all_supported f \<and> (is_media st \<longrightarrow> stream_supported st)"
  by (cases "codec_type (codecpar st)")
     (simp_all add: first_pass_stream_def is_media_def stream_supported_def is_media_stream_def
        Let_def)

lemma first_pass_stream_can_transcode:
  "can_transcode (first_pass_stream st f) \<longleftrightarrow>
     can_transcode f \<or>
     (is_media st \<and> \<not> stream_supported st \<and> \<not> is_bitmap_subtitle_stream st)"
  by (cases "codec_type (codecpar st)")
     (simp_all add: first_pass_stream_def is_media_def stream_supported_def is_media_stream_def
        is_bitmap_subtitle_stream_def Let_def)

lemma first_pass_stream_has_video:
  "has_video (first_pass_stream st f) \<longleftrightarrow>
     has_video f \<or> codec_type (codecpar st) = AVMEDIA_TYPE_VIDEO"
  by (cases "codec_type (codecpar st)")
     (simp_all add: first_pass_stream_def is_media_stream_def Let_def)

lemma first_pass_stream_has_audio:
  "has_audio (first_pass_stream st f) \<longleftrightarrow>
     has_audio f \<or> codec_type (codecpar st) = AVMEDIA_TYPE_AUDIO"
  by (cases "codec_type (codecpar st)")
     (simp_all add: first_pass_stream_def is_media_stream_def Let_def)

lemma bitmap_not_supported:
  "is_bitmap_subtitle cid \<Longrightarrow> \<not> is_subtitle_codec_supported cid"
  by (auto simp: is_bitmap_subtitle_def is_subtitle_codec_supported_def)

lemma first_pass_stream_bitmap:
  "has_unsupported_bitmap_subtitle (first_pass_stream st f) \<longleftrightarrow>
     has_unsupported_bitmap_subtitle f \<or> is_bitmap_subtitle_stream st"
  by (cases "codec_type (codecpar st)")
     (auto simp add: first_pass_stream_def is_media_stream_def Let_def
        is_bitmap_subtitle_stream_def bitmap_not_supported)

lemma first_pass_all_supported:
  "all_supported (first_pass sts f) \<longleftrightarrow>
     all_supported f \<and> (\<forall>st \<in> set sts. is_media st \<longrightarrow> stream_supported st)"
  by (induction sts arbitrary: f) (auto simp: first_pass_stream_all_supported)

lemma first_pass_can_transcode:
  "can_transcode (first_pass sts f) \<longleftrightarrow>
     can_transcode f \<or>
     (\<exists>st \<in> set sts. is_media st \<and> \<not> stream_supported st \<and> \<not> is_bitmap_subtitle_stream st)"
  by (induction sts arbitrary: f) (auto simp: first_pass_stream_can_transcode)

lemma first_pass_has_video:
  "has_video (first_pass sts f) \<longleftrightarrow>
     has_video f \<or> (\<exists>st \<in> set sts. codec_type (codecpar st) = AVMEDIA_TYPE_VIDEO)"
  by (induction sts arbitrary: f) (auto simp: first_pass_stream_has_video)

lemma first_pass_has_audio:
  "has_audio (first_pass sts f) \<longleftrightarrow>
     has_audio f \<or> (\<exists>st \<in> set sts. codec_type (codecpar st) = AVMEDIA_TYPE_AUDIO)"
  by (induction sts arbitrary: f) (auto simp: first_pass_stream_has_audio)

lemma first_pass_bitmap:
  "has_unsupported_bitmap_subtitle (first_pass sts f) \<longleftrightarrow>
     has_unsupported_bitmap_subtitle f \<or> (\<exists>st \<in> set sts. is_bitmap_subtitle_stream st)"
  by (induction sts arbitrary: f) (auto simp: first_pass_stream_bitmap)

text \<open>
  Claim C2. The flag \<open>all_supported\<close> holds exactly when the container is supported and
  every video, audio and subtitle stream is classified supported; \<open>can_transcode\<close> holds
  exactly when some stream is unsupported and is not a bitmap subtitle, that is, when
  there is an unsupported video stream, an unsupported audio stream or an unsupported
  subtitle stream that is not bitmap.
\<close>

theorem C2_outcome_flags:
  "(all_supported (analyse container_ok sts) \<longleftrightarrow>
      container_ok \<and> (\<forall>st \<in> set sts. is_media st \<longrightarrow> stream_supported st)) \<and>
   (can_transcode (analyse container_ok sts) \<longleftrightarrow>
      (\<exists>st \<in> set sts. is_media st \<and> \<not> stream_supported st \<and> \<not> is_bitmap_subtitle_stream st)) \<and>
   (can_transcode (analyse container_ok sts) \<longleftrightarrow>
      (\<exists>st \<in> set sts.
         codec_type (codecpar st) = AVMEDIA_TYPE_VIDEO \<and> \<not> is_video_codec_supported (codecpar st) \<or>
         codec_type (codecpar st) = AVMEDIA_TYPE_AUDIO \<and>
           \<not> is_audio_codec_supported (codec_id (codecpar st)) \<or>
         codec_type (codecpar st) = AVMEDIA_TYPE_SUBTITLE \<and>
           \<not> is_subtitle_codec_supported (codec_id (codecpar st)) \<and>
           \<not> is_bitmap_subtitle (codec_id (codecpar st))))"
proof (intro conjI)
  show "all_supported (analyse container_ok sts) \<longleftrightarrow>
      container_ok \<and> (\<forall>st \<in> set sts. is_media st \<longrightarrow> stream_supported st)"
    by (simp add: analyse_def first_pass_all_supported)
  show ct: "can_transcode (analyse container_ok sts) \<longleftrightarrow>
      (\<exists>st \<in> set sts. is_media st \<and> \<not> stream_supported st \<and> \<not> is_bitmap_subtitle_stream st)"
    by (simp add: analyse_def first_pass_can_transcode)
  have "\<And>st. (is_media st \<and> \<not> stream_supported st \<and> \<not> is_bitmap_subtitle_stream st) \<longleftrightarrow>
         (codec_type (codecpar st) = AVMEDIA_TYPE_VIDEO \<and> \<not> is_video_codec_supported (codecpar st) \<or>
         codec_type (codecpar st) = AVMEDIA_TYPE_AUDIO \<and>
           \<not> is_audio_codec_supported (codec_id (codecpar st)) \<or>
         codec_type (codecpar st) = AVMEDIA_TYPE_SUBTITLE \<and>
           \<not> is_subtitle_codec_supported (codec_id (codecpar st)) \<and>
           \<not> is_bitmap_subtitle (codec_id (codecpar st)))"
    by (auto simp: is_media_def is_media_stream_def stream_supported_def
          is_bitmap_subtitle_stream_def Let_def)
  then show "can_transcode (analyse container_ok sts) \<longleftrightarrow>
      (\<exists>st \<in> set sts.
         codec_type (codecpar st) = AVMEDIA_TYPE_VIDEO \<and> \<not> is_video_codec_supported (codecpar st) \<or>
         codec_type (codecpar st) = AVMEDIA_TYPE_AUDIO \<and>
           \<not> is_audio_codec_supported (codec_id (codecpar st)) \<or>
         codec_type (codecpar st) = AVMEDIA_TYPE_SUBTITLE \<and>
           \<not> is_subtitle_codec_supported (codec_id (codecpar st)) \<and>
           \<not> is_bitmap_subtitle (codec_id (codecpar st)))"
    unfolding ct by simp
qed

section \<open>The transcode command\<close>


lemma transcode_loop_snoc:
  "transcode_loop (xs @ [x]) t =
     (case transcode_loop xs t of Inl e \<Rightarrow> Inl e | Inr t' \<Rightarrow> transcode_stream x t')"
  by (induction xs arbitrary: t) (auto split: sum.splits)

lemma snprintf_append:
  "0 < n \<Longrightarrow> snprintf n (a @ b) = snprintf_end n (snprintf n a) b"
  by (auto simp: snprintf_def snprintf_end_def min_def)

lemma of_type_snoc:
  "of_type ty (xs @ [x]) = of_type ty xs @ (if codec_type (codecpar x) = ty then [x] else [])"
  by (simp add: of_type_def)

lemma type_flags_snoc:
  "type_flags ty (xs @ [x]) =
     type_flags ty xs @
     (if codec_type (codecpar x) = ty then spec_flag (length (of_type ty xs)) x else [])"
  by (simp add: type_flags_def of_type_snoc enumerate_append_eq)

lemma first_seen_snoc:
  "first_seen (xs @ [x]) = first_seen xs @ (if x \<in> set xs then [] else [x])"
  by (simp add: first_seen_def)

lemma media_types_snoc:
  "media_types (xs @ [x]) = media_types xs @ (if is_media x then [codec_type (codecpar x)] else [])"
  by (simp add: media_types_def)

lemma in_media_types:
  "is_media x \<Longrightarrow> codec_type (codecpar x) \<in> set (media_types xs) \<longleftrightarrow> of_type (codec_type (codecpar x)) xs \<noteq> []"
proof -
  assume m: "is_media x"
  have "codec_type (codecpar x) \<in> set (media_types xs) \<longleftrightarrow>
        (\<exists>y \<in> set xs. is_media y \<and> codec_type (codecpar y) = codec_type (codecpar x))"
    by (simp add: media_types_def image_iff) metis
  also have "\<dots> \<longleftrightarrow> (\<exists>y \<in> set xs. codec_type (codecpar y) = codec_type (codecpar x))"
    using m unfolding is_media_def by metis
  also have "\<dots> \<longleftrightarrow> of_type (codec_type (codecpar x)) xs \<noteq> []"
    by (auto simp: of_type_def filter_empty_conv)
  finally show ?thesis .
qed

lemma spec_selectors_snoc:
  "spec_selectors (xs @ [x]) =
     spec_selectors xs @
     (if is_media x \<and> of_type (codec_type (codecpar x)) xs = []
      then '' -map 0:'' @ [type_letter (codec_type (codecpar x))] else [])"
  by (auto simp: spec_selectors_def media_types_snoc first_seen_snoc in_media_types)

lemma spec_flag_video:
  "codec_type (codecpar x) = AVMEDIA_TYPE_VIDEO \<Longrightarrow>
   spec_flag n x = '' -c:v:'' @ printf_d n @ '' '' @
       (if is_video_codec_supported (codecpar x) then ''copy'' else ''libx264'')"
  by (simp add: spec_flag_def spec_codec_def stream_supported_def)

lemma spec_flag_audio:
  "codec_type (codecpar x) = AVMEDIA_TYPE_AUDIO \<Longrightarrow>
   spec_flag n x = '' -c:a:'' @ printf_d n @ '' '' @
       (if is_audio_codec_supported (codec_id (codecpar x)) then ''copy'' else ''aac'')"
  by (simp add: spec_flag_def spec_codec_def stream_supported_def)

lemma spec_flag_subtitle:
  "codec_type (codecpar x) = AVMEDIA_TYPE_SUBTITLE \<Longrightarrow>
   spec_flag n x = '' -c:s:'' @ printf_d n @ '' '' @
       (if is_subtitle_codec_supported (codec_id (codecpar x)) then ''copy''
        else if is_text_subtitle (codec_id (codecpar x)) then ''srt'' else ''copy'')"
  by (simp add: spec_flag_def spec_codec_def stream_supported_def)

lemma t_after_step_other:
  assumes "\<not> is_media x"
  shows "transcode_stream x (t_after c0 xs) = Inr (t_after c0 (xs @ [x]))"
  using assms
  by (auto simp: transcode_stream_def t_after_def is_media_def Let_def
      of_type_snoc type_flags_snoc spec_selectors_snoc is_media_stream_def)

lemma t_after_step_video:
  assumes "codec_type (codecpar x) = AVMEDIA_TYPE_VIDEO"
    and "length (c0 @ spec_selectors xs) < 8192"
  shows "transcode_stream x (t_after c0 xs) =
     (if length (c0 @ spec_selectors (xs @ [x])) < 8192 then Inr (t_after c0 (xs @ [x]))
      else Inl Buffer_Overflow)"
  using assms
  by (simp add: transcode_stream_def t_after_def is_media_def Let_def strcat_def
      of_type_snoc type_flags_snoc spec_selectors_snoc is_media_stream_def
      snprintf_append spec_flag_video)

lemma t_after_step_audio:
  assumes "codec_type (codecpar x) = AVMEDIA_TYPE_AUDIO"
    and "length (c0 @ spec_selectors xs) < 8192"
  shows "transcode_stream x (t_after c0 xs) =
     (if length (c0 @ spec_selectors (xs @ [x])) < 8192 then Inr (t_after c0 (xs @ [x]))
      else Inl Buffer_Overflow)"
  using assms
  by (simp add: transcode_stream_def t_after_def is_media_def Let_def strcat_def
      of_type_snoc type_flags_snoc spec_selectors_snoc is_media_stream_def
      snprintf_append spec_flag_audio)

lemma t_after_step_subtitle:
  assumes "codec_type (codecpar x) = AVMEDIA_TYPE_SUBTITLE"
    and "length (c0 @ spec_selectors xs) < 8192"
  shows "transcode_stream x (t_after c0 xs) =
     (if length (c0 @ spec_selectors (xs @ [x])) < 8192 then Inr (t_after c0 (xs @ [x]))
      else Inl Buffer_Overflow)"
  using assms
  by (simp add: transcode_stream_def t_after_def is_media_def Let_def strcat_def
      of_type_snoc type_flags_snoc spec_selectors_snoc is_media_stream_def
      snprintf_append spec_flag_subtitle)

lemma spec_selectors_snoc_length:
  "length (spec_selectors xs) \<le> length (spec_selectors (xs @ [x]))"
  by (simp add: spec_selectors_snoc)

lemma t_after_Nil: "t_after c0 [] = t_init c0"
  by (simp add: t_after_def t_init_def of_type_def type_flags_def spec_selectors_def
      media_types_def first_seen_def snprintf_def)

lemma transcode_loop_eq:
  assumes "length c0 < 8192"
  shows "transcode_loop sts (t_init c0) =
     (if length (c0 @ spec_selectors sts) < 8192 then Inr (t_after c0 sts)
      else Inl Buffer_Overflow)"
proof (induction sts rule: rev_induct)
  case Nil
  show ?case using assms
    by (simp add: t_after_Nil) (simp add: spec_selectors_def media_types_def first_seen_def)
next
  case (snoc x xs)
  show ?case
  proof (cases "length (c0 @ spec_selectors xs) < 8192")
    case False
    then have "\<not> length (c0 @ spec_selectors (xs @ [x])) < 8192"
      using spec_selectors_snoc_length [of xs x] by simp
    with False snoc show ?thesis
      by (simp add: transcode_loop_snoc)
  next
    case True
    then have loop: "transcode_loop xs (t_init c0) = Inr (t_after c0 xs)"
      using snoc by simp
    consider (other) "\<not> is_media x"
      | (video) "codec_type (codecpar x) = AVMEDIA_TYPE_VIDEO"
      | (audio) "codec_type (codecpar x) = AVMEDIA_TYPE_AUDIO"
      | (subtitle) "codec_type (codecpar x) = AVMEDIA_TYPE_SUBTITLE"
      by (auto simp: is_media_def is_media_stream_def)
    then show ?thesis
    proof cases
      case other
      then have "spec_selectors (xs @ [x]) = spec_selectors xs"
        by (simp add: spec_selectors_snoc)
      with other True loop show ?thesis
        by (simp add: transcode_loop_snoc t_after_step_other)
    next
      case video
      with True loop show ?thesis
        by (simp only: transcode_loop_snoc sum.case t_after_step_video)
    next
      case audio
      with True loop show ?thesis
        by (simp only: transcode_loop_snoc sum.case t_after_step_audio)
    next
      case subtitle
      with True loop show ?thesis
        by (simp only: transcode_loop_snoc sum.case t_after_step_subtitle)
    qed
  qed
qed

lemma length_snprintf: "length (snprintf n s) \<le> n - 1"
  by (simp add: snprintf_def)

lemma snprintf_end_take:
  "length c < n \<Longrightarrow> snprintf_end n c s = snprintf n (c @ s)"
  by (simp add: snprintf_end_def snprintf_def)

lemma transcode_command_eq:
  "transcode_command filepath sts =
     (let c = snprintf 8192 (''ffmpeg -i '' @ shell_escape_single filepath) @ grouped_options sts
      in if length c < 8192
         then Inr (snprintf 8192 (c @ '' '' @ shell_escape_single (fixed_basename filepath)))
         else Inl Buffer_Overflow)"
proof -
  define c0 where "c0 = snprintf 8192 (''ffmpeg -i '' @ shell_escape_single filepath)"
  have c0: "length c0 < 8192"
    using length_snprintf [of 8192 "''ffmpeg -i '' @ shell_escape_single filepath"]
    by (simp add: c0_def)
  have tc: "transcode_command filepath sts =
     (case transcode_loop sts (t_init c0) of
           Inl e \<Rightarrow> Inl e
         | Inr t \<Rightarrow>
             (case strcat 8192 (cmd t) (v_opts t) of
                Inl e \<Rightarrow> Inl e
              | Inr c1 \<Rightarrow>
                  (case strcat 8192 c1 (a_opts t) of
                     Inl e \<Rightarrow> Inl e
                   | Inr c2 \<Rightarrow>
                       (case strcat 8192 c2 (s_opts t) of
                          Inl e \<Rightarrow> Inl e
                        | Inr c3 \<Rightarrow> Inr (snprintf_end 8192 c3
                              ('' '' @ shell_escape_single (fixed_basename filepath)))))))"
    by (simp add: transcode_command_def t_init_def c0_def Let_def)
  show ?thesis
    unfolding tc transcode_loop_eq [OF c0] c0_def [symmetric] Let_def grouped_options_def
    by (auto simp: t_after_def strcat_def snprintf_end_take)
qed

section \<open>What \<^verbatim>\<open>check_file\<close> prints\<close>

lemma report_streams_only:
  "x \<in> set (report_streams lib i sts) \<Longrightarrow>
     (\<exists>j ty c l s. x = P_stream j ty c l s) \<or> (\<exists>j c. x = P_bitmap_note j c)"
  by (induction sts arbitrary: i) (auto simp: Let_def split: if_splits prod.splits)

lemma report_streams_no_remux [simp]: "P_remux c \<notin> set (report_streams lib i sts)"
  using report_streams_only by blast

lemma report_streams_no_transcode [simp]: "P_transcode c \<notin> set (report_streams lib i sts)"
  using report_streams_only by blast

lemma analyse_can_transcode_unsupported:
  "can_transcode (analyse c sts) \<Longrightarrow> \<not> all_supported (analyse c sts)"
  by (auto simp: analyse_def first_pass_can_transcode first_pass_all_supported)

lemma analyse_has_audio_or_video:
  "has_video (analyse c sts) \<or> has_audio (analyse c sts) \<longleftrightarrow> has_audio_or_video sts"
  by (auto simp: analyse_def first_pass_has_video first_pass_has_audio has_audio_or_video_def)

lemma check_file_probed_verbose:
  assumes "has_supported_extension filepath" and "\<not> brief_mode g"
  shows "check_file lib g filepath sfp (Probe_Ok fmt_ctx) summary =
     check_file_verbose lib g filepath (if sfp then filepath else get_basename filepath) fmt_ctx
       (container_name fmt_ctx) (is_container_supported (Some (container_name fmt_ctx))) summary"
  using assms by (simp add: check_file_def container_name_def Let_def)

lemma check_file_probed_brief:
  assumes "has_supported_extension filepath" and "brief_mode g"
  shows "check_file lib g filepath sfp (Probe_Ok fmt_ctx) summary =
     check_file_brief lib (if sfp then filepath else get_basename filepath) fmt_ctx
       (container_name fmt_ctx) (is_container_supported (Some (container_name fmt_ctx))) summary"
  using assms by (simp add: check_file_def container_name_def Let_def)

lemma check_file_brief_out:
  "check_file_brief lib filename fmt_ctx container container_ok summary = Inr (out, summary') \<Longrightarrow>
     out = [] \<or> (\<exists>l. out = [P_brief filename l])"
  by (auto simp: check_file_brief_def Let_def split: sum.splits if_splits)

lemma check_file_verbose_transcode:
  assumes "check_file_verbose lib g filepath filename fmt_ctx container container_ok summary
            = Inr (out, summary')"
  shows "P_transcode c \<in> set out \<longleftrightarrow>
     can_transcode (analyse container_ok (streams fmt_ctx)) \<and>
     has_audio_or_video (streams fmt_ctx) \<and>
     transcode_command filepath (streams fmt_ctx) = Inr c"
proof -
  let ?f = "analyse container_ok (streams fmt_ctx)"
  have hav: "has_video ?f \<or> has_audio ?f \<longleftrightarrow> has_audio_or_video (streams fmt_ctx)"
    by (rule analyse_has_audio_or_video)
  have ct: "can_transcode ?f \<Longrightarrow> \<not> all_supported ?f"
    by (rule analyse_can_transcode_unsupported)
  show ?thesis
    using assms hav ct
    by (auto simp: check_file_verbose_def Let_def split: if_splits sum.splits)
qed


lemma check_file_verbose_remux:
  assumes "check_file_verbose lib g filepath filename fmt_ctx container container_ok summary
            = Inr (out, summary')"
  shows "P_remux c \<in> set out \<longleftrightarrow>
     \<not> (skip_unfixable g \<and> \<not> can_transcode (analyse container_ok (streams fmt_ctx)) \<and>
        has_unsupported_bitmap_subtitle (analyse container_ok (streams fmt_ctx))) \<and>
     \<not> all_supported (analyse container_ok (streams fmt_ctx)) \<and>
     has_audio_or_video (streams fmt_ctx) \<and>
     c = remux_command filepath"
proof -
  let ?f = "analyse container_ok (streams fmt_ctx)"
  have hav: "has_video ?f \<or> has_audio ?f \<longleftrightarrow> has_audio_or_video (streams fmt_ctx)"
    by (rule analyse_has_audio_or_video)
  show ?thesis
    using assms hav
    by (auto simp: check_file_verbose_def Let_def split: if_splits sum.splits)
qed

lemma length_first_seen_media_types: "length (first_seen (media_types sts)) \<le> 3"
proof -
  have d: "distinct (first_seen (media_types sts))"
    by (simp add: first_seen_def)
  have "set (first_seen (media_types sts)) \<subseteq>
          {AVMEDIA_TYPE_VIDEO, AVMEDIA_TYPE_AUDIO, AVMEDIA_TYPE_SUBTITLE}"
    by (auto simp: first_seen_def media_types_def is_media_def is_media_stream_def)
  then have "card (set (first_seen (media_types sts))) \<le>
          card {AVMEDIA_TYPE_VIDEO, AVMEDIA_TYPE_AUDIO, AVMEDIA_TYPE_SUBTITLE}"
    by (intro card_mono) auto
  with d show ?thesis
    by (simp add: distinct_card)
qed

lemma length_spec_selectors: "length (spec_selectors sts) \<le> 27"
proof -
  have "length (concat (map (\<lambda>ty. '' -map 0:'' @ [type_letter ty]) xs)) = 9 * length xs"
    for xs :: "AVMediaType list"
    by (induction xs) auto
  then show ?thesis
    using length_first_seen_media_types [of sts] by (simp add: spec_selectors_def)
qed

lemma length_grouped_options: "length (grouped_options sts) \<le> 3096"
  using length_spec_selectors [of sts]
    length_snprintf [of 1024 "type_flags AVMEDIA_TYPE_VIDEO sts"]
    length_snprintf [of 1024 "type_flags AVMEDIA_TYPE_AUDIO sts"]
    length_snprintf [of 1024 "type_flags AVMEDIA_TYPE_SUBTITLE sts"]
  by (simp add: grouped_options_def)

lemma transcode_command_returns:
  assumes "length (shell_escape_single filepath) \<le> 5085"
  shows "\<exists>c. transcode_command filepath sts = Inr c"
proof -
  have "length (snprintf 8192 (''ffmpeg -i '' @ shell_escape_single filepath)) \<le> 5095"
    using assms by (simp add: snprintf_def)
  then show ?thesis
    using length_grouped_options [of sts]
    by (simp add: transcode_command_eq Let_def)
qed

lemma check_file_verbose_returns:
  assumes "length (shell_escape_single filepath) \<le> 5085"
  shows "\<exists>out summary'.
           check_file_verbose lib g filepath filename fmt_ctx container container_ok summary
             = Inr (out, summary')"
  using transcode_command_returns [OF assms, of "streams fmt_ctx"]
  by (auto simp: check_file_verbose_def Let_def)

lemma check_file_verbose_no_transcode_returns:
  assumes "\<not> can_transcode (analyse container_ok (streams fmt_ctx))"
  shows "\<exists>out summary'.
           check_file_verbose lib g filepath filename fmt_ctx container container_ok summary
             = Inr (out, summary')"
  using assms by (auto simp: check_file_verbose_def Let_def)





section \<open>Evaluating the examples\<close>

lemma printf_d_0: "printf_d 0 = ''0''"
  by code_simp

lemma snprintf_fits: "length s < n \<Longrightarrow> snprintf n s = s"
  by (simp add: snprintf_def)

lemma strrchr_append:
  "strrchr ys c = Some r \<Longrightarrow> strrchr (xs @ ys) c = Some r"
  by (induction xs) auto

lemma ex_extensions:
  "has_supported_extension ''movie.avi''"
  "has_supported_extension ''movie.mkv''"
  "has_supported_extension ''subs.mkv''"
  by (simp_all add: has_supported_extension_def exts_def tolower_def)

lemma ex_basenames:
  "get_basename ''movie.avi'' = ''movie.avi''"
  "get_basename ''movie.mkv'' = ''movie.mkv''"
  "get_basename ''subs.mkv'' = ''subs.mkv''"
  by (simp_all add: get_basename_def)

lemma ex_supported:
  "\<not> stream_supported
       (video_stream AV_CODEC_ID_MPEG4 (MKTAG (CHR ''X'') (CHR ''V'') (CHR ''I'') (CHR ''D'')) 0)"
  "stream_supported (video_stream AV_CODEC_ID_H264 tag prof)"
  "stream_supported (audio_stream AV_CODEC_ID_AAC)"
  "stream_supported (audio_stream AV_CODEC_ID_MP3)"
  "\<not> stream_supported (subtitle_stream AV_CODEC_ID_HDMV_PGS_SUBTITLE)"
  "\<not> stream_supported (subtitle_stream AV_CODEC_ID_DVB_SUBTITLE)"
  by (simp_all add: stream_supported_def video_stream_def audio_stream_def subtitle_stream_def
      is_video_codec_supported_def is_audio_codec_supported_def is_subtitle_codec_supported_def)

lemma ex_media:
  "is_media (video_stream cid tag prof)"
  "is_media (audio_stream cid)"
  "is_media (subtitle_stream cid)"
  by (simp_all add: is_media_def is_media_stream_def video_stream_def audio_stream_def
      subtitle_stream_def)

lemma ex_types:
  "codec_type (codecpar (video_stream cid tag prof)) = AVMEDIA_TYPE_VIDEO"
  "codec_type (codecpar (audio_stream cid)) = AVMEDIA_TYPE_AUDIO"
  "codec_type (codecpar (subtitle_stream cid)) = AVMEDIA_TYPE_SUBTITLE"
  by (simp_all add: video_stream_def audio_stream_def subtitle_stream_def)

lemma ex_bitmap:
  "\<not> is_bitmap_subtitle_stream (video_stream cid tag prof)"
  "\<not> is_bitmap_subtitle_stream (audio_stream cid)"
  "is_bitmap_subtitle_stream (subtitle_stream AV_CODEC_ID_HDMV_PGS_SUBTITLE)"
  "\<not> is_bitmap_subtitle_stream (subtitle_stream AV_CODEC_ID_DVB_SUBTITLE)"
  by (simp_all add: is_bitmap_subtitle_stream_def is_bitmap_subtitle_def video_stream_def
      audio_stream_def subtitle_stream_def)

lemma ex_containers:
  "is_container_supported (Some ''avi'')"
  "is_container_supported (Some ''matroska,webm'')"
  by (simp_all add: is_container_supported_def)

lemma analyse_all_supported:
  "all_supported (analyse c sts) \<longleftrightarrow>
     c \<and> (\<forall>st \<in> set sts. is_media st \<longrightarrow> stream_supported st)"
  by (simp add: analyse_def first_pass_all_supported)

lemma analyse_can_transcode:
  "can_transcode (analyse c sts) \<longleftrightarrow>
     (\<exists>st \<in> set sts. is_media st \<and> \<not> stream_supported st \<and> \<not> is_bitmap_subtitle_stream st)"
  by (simp add: analyse_def first_pass_can_transcode)

lemma analyse_bitmap:
  "has_unsupported_bitmap_subtitle (analyse c sts) \<longleftrightarrow>
     (\<exists>st \<in> set sts. is_bitmap_subtitle_stream st)"
  by (simp add: analyse_def first_pass_bitmap)

lemma ex_outcome_xvid:
  "\<not> all_supported (file_outcome ex_xvid_avi)"
  "can_transcode (file_outcome ex_xvid_avi)"
  "has_audio_or_video (streams ex_xvid_avi)"
  by (simp_all add: file_outcome_def analyse_all_supported analyse_can_transcode
      has_audio_or_video_def ex_xvid_avi_def ex_supported ex_media ex_types ex_bitmap)

lemma ex_outcome_pgs:
  "\<not> all_supported (file_outcome ex_pgs_mkv)"
  "\<not> can_transcode (file_outcome ex_pgs_mkv)"
  "has_unsupported_bitmap_subtitle (file_outcome ex_pgs_mkv)"
  "has_audio_or_video (streams ex_pgs_mkv)"
  by (simp_all add: file_outcome_def analyse_all_supported analyse_can_transcode
      analyse_bitmap
      has_audio_or_video_def ex_pgs_mkv_def ex_supported ex_media ex_types ex_bitmap)

lemma ex_outcome_subs:
  "\<not> all_supported (file_outcome ex_subs_only_mkv)"
  "can_transcode (file_outcome ex_subs_only_mkv)"
  "\<not> has_audio_or_video (streams ex_subs_only_mkv)"
  by (simp_all add: file_outcome_def analyse_all_supported analyse_can_transcode
      has_audio_or_video_def ex_subs_only_mkv_def ex_supported ex_media ex_types ex_bitmap)

lemma ex_outcome_ok:
  "all_supported (file_outcome ex_ok_avi)"
  "\<not> can_transcode (file_outcome ex_ok_avi)"
  by (simp_all add: file_outcome_def analyse_all_supported analyse_can_transcode
      has_audio_or_video_def ex_ok_avi_def ex_supported ex_media ex_types ex_bitmap ex_containers container_name_def)

lemma ex_check_subs_only:
  "check_file ex_lib verbose_flags ''subs.mkv'' False (Probe_Ok ex_subs_only_mkv) summary0 =
     Inr ([P_header ''subs.mkv'', P_container ''matroska,webm'' True,
           P_stream 0 ''subtitle'' ''dvb_subtitle'' ''eng'' False,
           P_overall False, P_blank],
          \<lparr>total_count = 1, ok = 0, not_supported = 1, errors = 0\<rparr>)"
  using ex_outcome_subs ex_containers
  by (simp add: check_file_probed_verbose ex_extensions verbose_flags_def check_file_verbose_def
      file_outcome_def analyse_has_audio_or_video ex_basenames Let_def summary0_def)
     (simp add: ex_subs_only_mkv_def container_name_def subtitle_stream_def ex_lib_def
       is_media_stream_def is_subtitle_codec_supported_def is_bitmap_subtitle_def)

lemma printf_d_1: "printf_d 1 = ''1''" "printf_d (Suc 0) = ''1''"
  by code_simp+

lemma ex_remux_cmds:
  "remux_command ''movie.avi'' = ex_xvid_remux_cmd"
  "remux_command ''movie.mkv'' = ex_pgs_remux_cmd"
  by (simp_all add: remux_command_def ex_basenames snprintf_fits PATH_BUF_SIZE_def
      shell_escape_single_def ex_xvid_remux_cmd_def ex_pgs_remux_cmd_def squote_def)

lemma ex_fixed_basenames:
  "fixed_basename ''movie.avi'' = ''fixed_movie.mkv''"
  "fixed_basename ''movie.mkv'' = ''fixed_movie.mkv''"
  by (simp_all add: fixed_basename_def ex_basenames snprintf_fits PATH_BUF_SIZE_def)

lemmas ex_eval_defs =
  grouped_options_def spec_selectors_def media_types_def first_seen_def
  type_flags_def of_type_def spec_flag_def spec_codec_def enumerate_eq_zip

lemma ex_grouped_xvid:
  "grouped_options (streams ex_xvid_avi) = '' -map 0:v -map 0:a -c:v:0 libx264 -c:a:0 copy''"
  by (simp add: ex_xvid_avi_def ex_eval_defs ex_media ex_types ex_supported snprintf_fits
      printf_d_0)

lemma ex_grouped_audio_first:
  "grouped_options (streams ex_audio_first_avi) =
     '' -map 0:a -map 0:v -c:v:0 libx264 -c:a:0 copy''"
  by (simp add: ex_audio_first_avi_def ex_eval_defs ex_media ex_types ex_supported snprintf_fits
      printf_d_0)

lemma ex_transcode_xvid:
  "transcode_command ''movie.avi'' (streams ex_xvid_avi) = Inr ex_xvid_transcode_cmd"
  by (simp add: transcode_command_eq ex_grouped_xvid ex_fixed_basenames snprintf_fits
      shell_escape_single_def ex_xvid_transcode_cmd_def squote_def)

lemma ex_transcode_audio_first:
  "transcode_command ''movie.avi'' (streams ex_audio_first_avi) =
     Inr ex_audio_first_transcode_cmd"
  by (simp add: transcode_command_eq ex_grouped_audio_first ex_fixed_basenames snprintf_fits
      shell_escape_single_def ex_audio_first_transcode_cmd_def squote_def)

lemma ex_check_xvid:
  "check_file ex_lib verbose_flags ''movie.avi'' False (Probe_Ok ex_xvid_avi) summary0 =
     Inr ([P_header ''movie.avi'', P_container ''avi'' True,
           P_stream 0 ''video'' ''mpeg4'' ''und'' False,
           P_stream 1 ''audio'' ''aac'' ''eng'' True,
           P_overall False,
           P_remux ex_xvid_remux_cmd, P_remux_hint,
           P_transcode ex_xvid_transcode_cmd, P_blank],
          \<lparr>total_count = 1, ok = 0, not_supported = 1, errors = 0\<rparr>)"
  using ex_outcome_xvid ex_containers
  by (simp add: check_file_probed_verbose ex_extensions verbose_flags_def check_file_verbose_def
      file_outcome_def analyse_has_audio_or_video ex_basenames Let_def summary0_def
      ex_remux_cmds ex_transcode_xvid)
     (simp add: ex_xvid_avi_def container_name_def video_stream_def audio_stream_def ex_lib_def
       is_media_stream_def is_video_codec_supported_def is_audio_codec_supported_def)

lemma ex_check_pgs_skipped:
  "check_file ex_lib skip_unfixable_flags ''movie.mkv'' False (Probe_Ok ex_pgs_mkv) summary0 =
     Inr ([], \<lparr>total_count = 1, ok = 0, not_supported = 1, errors = 0\<rparr>)"
  using ex_outcome_pgs
  by (simp add: check_file_probed_verbose ex_extensions skip_unfixable_flags_def
      check_file_verbose_def file_outcome_def Let_def summary0_def)

lemma brief_snprintf_fits:
  "linelen b + length s < 8192 \<Longrightarrow> length (line b) = linelen b \<Longrightarrow>
   brief_snprintf b s = Inr (b\<lparr>line := line b @ s, linelen := linelen b + length s\<rparr>)"
  by (simp add: brief_snprintf_def)

lemma ex_brief_loop:
  "brief_loop ex_lib 0 (streams ex_xvid_avi) \<lparr>line = [], linelen = 0, has_unsupported = False\<rparr> =
     Inr \<lparr>line = ex_xvid_brief_line, linelen = length ex_xvid_brief_line, has_unsupported = True\<rparr>"
  by (simp add: ex_xvid_avi_def ex_types ex_supported stream_supported_def [symmetric, unfolded Let_def]
      brief_snprintf_fits Let_def is_media_stream_def printf_d_0 printf_d_1
      ex_xvid_brief_line_def COLOR_RED_def COLOR_GREEN_def COLOR_RESET_def)
     (simp add: video_stream_def audio_stream_def ex_lib_def brief_snprintf_fits
       is_video_codec_supported_def is_audio_codec_supported_def is_media_stream_def Let_def
       printf_d_1 COLOR_GREEN_def COLOR_RESET_def)

lemma ex_check_brief:
  "check_file ex_lib brief_flags ''movie.avi'' False (Probe_Ok ex_xvid_avi) summary0 =
     Inr ([P_brief ''movie.avi'' ex_xvid_brief_line],
          \<lparr>total_count = 1, ok = 0, not_supported = 1, errors = 0\<rparr>)"
  using ex_containers
  by (simp add: check_file_probed_brief ex_extensions brief_flags_def check_file_brief_def
      ex_basenames Let_def summary0_def ex_brief_loop)
     (simp add: container_name_def ex_xvid_avi_def)

section \<open>When the commands are offered\<close>

text \<open>
  Claim C4, amended. In verbose mode, for a probed file whose analysis returns, a
  transcode command is printed exactly when \<open>can_transcode\<close> holds and the file has at
  least one video or audio stream, and the command printed is the one the transcode
  block builds. The analysis returns whenever the escaped path has at most 5085
  characters, which covers every path of at most 4095 characters without single quotes.
\<close>

theorem C4_transcode_offered:
  assumes "has_supported_extension filepath" and "\<not> brief_mode g"
  shows "(check_file lib g filepath sfp (Probe_Ok fmt_ctx) summary = Inr (out, summary') \<longrightarrow>
            ((\<exists>c. P_transcode c \<in> set out) \<longleftrightarrow>
               can_transcode (file_outcome fmt_ctx) \<and> has_audio_or_video (streams fmt_ctx)) \<and>
            (\<forall>c. P_transcode c \<in> set out \<longrightarrow>
               transcode_command filepath (streams fmt_ctx) = Inr c)) \<and>
         (length (shell_escape_single filepath) \<le> 5085 \<longrightarrow>
            (\<exists>out summary'.
               check_file lib g filepath sfp (Probe_Ok fmt_ctx) summary = Inr (out, summary')))"
proof (intro conjI impI)
  assume r: "check_file lib g filepath sfp (Probe_Ok fmt_ctx) summary = Inr (out, summary')"
  then have v: "check_file_verbose lib g filepath (if sfp then filepath else get_basename filepath)
       fmt_ctx (container_name fmt_ctx) (is_container_supported (Some (container_name fmt_ctx)))
       summary = Inr (out, summary')"
    using assms by (simp add: check_file_probed_verbose)
  note tr = check_file_verbose_transcode [OF v, folded file_outcome_def]
  show "(\<exists>c. P_transcode c \<in> set out) \<longleftrightarrow>
          can_transcode (file_outcome fmt_ctx) \<and> has_audio_or_video (streams fmt_ctx)"
  proof
    assume "\<exists>c. P_transcode c \<in> set out"
    then show "can_transcode (file_outcome fmt_ctx) \<and> has_audio_or_video (streams fmt_ctx)"
      using tr by blast
  next
    assume a: "can_transcode (file_outcome fmt_ctx) \<and> has_audio_or_video (streams fmt_ctx)"
    then have "\<not> all_supported (file_outcome fmt_ctx)"
      by (simp add: file_outcome_def analyse_can_transcode_unsupported)
    with a v have "\<exists>c. transcode_command filepath (streams fmt_ctx) = Inr c"
      by (auto simp: check_file_verbose_def Let_def file_outcome_def analyse_has_audio_or_video
          split: if_splits sum.splits)
    with a tr show "\<exists>c. P_transcode c \<in> set out"
      by blast
  qed
  show "\<forall>c. P_transcode c \<in> set out \<longrightarrow> transcode_command filepath (streams fmt_ctx) = Inr c"
    using tr by blast
next
  assume "length (shell_escape_single filepath) \<le> 5085"
  then show "\<exists>out summary'.
      check_file lib g filepath sfp (Probe_Ok fmt_ctx) summary = Inr (out, summary')"
    using assms check_file_verbose_returns by (simp add: check_file_probed_verbose)
qed

theorem C4_transcode_offered_witness:
  "has_supported_extension ''movie.avi'' \<and> \<not> brief_mode verbose_flags \<and>
   length (shell_escape_single ''movie.avi'') \<le> 5085 \<and>
   check_file ex_lib verbose_flags ''movie.avi'' False (Probe_Ok ex_xvid_avi) summary0 =
     Inr ([P_header ''movie.avi'', P_container ''avi'' True,
           P_stream 0 ''video'' ''mpeg4'' ''und'' False,
           P_stream 1 ''audio'' ''aac'' ''eng'' True,
           P_overall False,
           P_remux ex_xvid_remux_cmd, P_remux_hint,
           P_transcode ex_xvid_transcode_cmd, P_blank],
          \<lparr>total_count = 1, ok = 0, not_supported = 1, errors = 0\<rparr>) \<and>
   can_transcode (file_outcome ex_xvid_avi) \<and> has_audio_or_video (streams ex_xvid_avi) \<and>
   transcode_command ''movie.avi'' (streams ex_xvid_avi) = Inr ex_xvid_transcode_cmd"
proof -
  have e: "has_supported_extension ''movie.avi''" and b: "\<not> brief_mode verbose_flags"
    by (simp_all add: ex_extensions verbose_flags_def)
  have l: "length (shell_escape_single ''movie.avi'') \<le> 5085"
    by (simp add: shell_escape_single_def squote_def)
  show ?thesis
    using C4_transcode_offered [OF e b, of ex_lib False ex_xvid_avi summary0
        "[P_header ''movie.avi'', P_container ''avi'' True,
           P_stream 0 ''video'' ''mpeg4'' ''und'' False,
           P_stream 1 ''audio'' ''aac'' ''eng'' True,
           P_overall False,
           P_remux ex_xvid_remux_cmd, P_remux_hint,
           P_transcode ex_xvid_transcode_cmd, P_blank]"
        "\<lparr>total_count = 1, ok = 0, not_supported = 1, errors = 0\<rparr>"]
      e b l ex_check_xvid
    by simp
qed

lemma length_spec_escape:
  "length (spec_escape s) = length s + 2 + 3 * length (filter (\<lambda>c. c = squote) s)"
  by (induction s) (auto simp: spec_escape_def)

lemma shell_escape_single_buffer:
  "length (shell_escape_single s) + 1 \<le> length s * 4 + 4"
proof -
  have a: "length (filter (\<lambda>c. c = squote) s) \<le> length s"
    by (rule length_filter_le)
  have "length (shell_escape_single s) =
          length s + 2 + 3 * length (filter (\<lambda>c. c = squote) s)"
    by (simp add: shell_escape_single_spec length_spec_escape)
  with a show ?thesis
    by linarith
qed

lemma strrchr_suffix: "strrchr s c = Some r \<Longrightarrow> suffix r s"
  by (induction s arbitrary: r) (auto split: option.splits if_splits simp: suffix_Cons)

lemma length_get_basename: "length (get_basename p) \<le> length p"
proof (cases "strrchr p (CHR ''/'')")
  case None
  then show ?thesis by (simp add: get_basename_def)
next
  case (Some r)
  then have "length r \<le> length p"
    using strrchr_suffix suffix_length_le by blast
  with Some show ?thesis by (simp add: get_basename_def)
qed

lemma remux_command_fits:
  assumes "length (spec_remux_command filepath) < 8192"
  shows "remux_command filepath = spec_remux_command filepath"
proof -
  let ?n = "''remuxed_'' @ get_basename filepath @ ''.mkv''"
  have "length (spec_escape ?n) < 8192"
    using assms by (simp add: spec_remux_command_def)
  moreover have "length ?n + 2 \<le> length (spec_escape ?n)"
    by (simp add: length_spec_escape)
  moreover have "length filepath + 2 \<le> length (spec_escape filepath)"
    by (simp add: length_spec_escape)
  ultimately have n: "length ?n < 4096"
    using assms length_get_basename [of filepath]
    by (simp add: spec_remux_command_def)
  show ?thesis
    using assms n
    by (simp add: remux_command_def spec_remux_command_def Let_def snprintf_fits PATH_BUF_SIZE_def
        shell_escape_single_spec)
qed


lemma length_concat_replicate: "length (concat (replicate n xs)) = n * length xs"
  by (induction n) auto

lemma filter_concat_replicate:
  "length (filter P (concat (replicate n xs))) = n * length (filter P xs)"
  by (induction n) auto

lemma ex_quoted_path_facts:
  "has_supported_extension ex_quoted_path"
  "get_basename ex_quoted_path = ''a.mkv''"
  "length (shell_escape_single ex_quoted_path) = 9017"
proof -
  have "strrchr ''/a.mkv'' (CHR ''.'') = Some ''.mkv''"
    by simp
  then have "strrchr ex_quoted_path (CHR ''.'') = Some ''.mkv''"
    unfolding ex_quoted_path_def by (rule strrchr_append)
  then show "has_supported_extension ex_quoted_path"
    by (simp add: has_supported_extension_def exts_def tolower_def)
  have "strrchr ''/a.mkv'' (CHR ''/'') = Some ''/a.mkv''"
    by simp
  then have "strrchr ex_quoted_path (CHR ''/'') = Some ''/a.mkv''"
    unfolding ex_quoted_path_def by (rule strrchr_append)
  then show "get_basename ex_quoted_path = ''a.mkv''"
    by (simp add: get_basename_def)
  show "length (shell_escape_single ex_quoted_path) = 9017"
    by (simp add: shell_escape_single_spec length_spec_escape ex_quoted_path_def
        length_concat_replicate filter_concat_replicate squote_def)
qed

lemma ex_quoted_remux_differs:
  "remux_command ex_quoted_path \<noteq> spec_remux_command ex_quoted_path"
proof
  assume "remux_command ex_quoted_path = spec_remux_command ex_quoted_path"
  then have "length (remux_command ex_quoted_path) = length (spec_remux_command ex_quoted_path)"
    by simp
  moreover have "length (remux_command ex_quoted_path) \<le> 8191"
    using length_snprintf [of 8192] by (simp add: remux_command_def Let_def)
  moreover have "length (spec_remux_command ex_quoted_path) > 8191"
    using ex_quoted_path_facts(3)
    by (simp add: spec_remux_command_def shell_escape_single_spec)
  ultimately show False by simp
qed

lemma ex_check_quoted_pgs:
  "check_file ex_lib verbose_flags ex_quoted_path False (Probe_Ok ex_pgs_mkv) summary0 =
     Inr ([P_header ''a.mkv'', P_container ''matroska,webm'' True,
           P_stream 0 ''video'' ''h264'' ''und'' True,
           P_stream 1 ''audio'' ''aac'' ''eng'' True,
           P_stream 2 ''subtitle'' ''hdmv_pgs_subtitle'' ''eng'' False,
           P_bitmap_note 2 ''hdmv_pgs_subtitle'',
           P_overall False,
           P_remux (remux_command ex_quoted_path), P_remux_hint, P_blank],
          \<lparr>total_count = 1, ok = 0, not_supported = 1, errors = 0\<rparr>)"
  using ex_outcome_pgs ex_containers
  by (simp add: check_file_probed_verbose ex_quoted_path_facts verbose_flags_def
      check_file_verbose_def file_outcome_def analyse_has_audio_or_video Let_def summary0_def)
     (simp add: ex_pgs_mkv_def container_name_def video_stream_def audio_stream_def
       subtitle_stream_def ex_lib_def is_media_stream_def is_video_codec_supported_def
       is_audio_codec_supported_def is_subtitle_codec_supported_def is_bitmap_subtitle_def)

lemma ex_check_quoted_overflow:
  "check_file ex_lib verbose_flags ex_quoted_path False (Probe_Ok ex_xvid_avi) summary0 =
     Inl Buffer_Overflow"
proof -
  have "length (snprintf 8192 (''ffmpeg -i '' @ shell_escape_single ex_quoted_path)) = 8191"
    by (simp add: snprintf_def ex_quoted_path_facts)
  then have "transcode_command ex_quoted_path (streams ex_xvid_avi) = Inl Buffer_Overflow"
    by (simp add: transcode_command_eq ex_grouped_xvid Let_def)
  then show ?thesis
    using ex_outcome_xvid
    by (simp add: check_file_probed_verbose ex_quoted_path_facts verbose_flags_def
      check_file_verbose_def file_outcome_def analyse_has_audio_or_video Let_def)
qed

theorem C4_counterexample:
  "can_transcode (file_outcome ex_subs_only_mkv) \<and>
   check_file ex_lib verbose_flags ''subs.mkv'' False (Probe_Ok ex_subs_only_mkv) summary0 =
     Inr ([P_header ''subs.mkv'', P_container ''matroska,webm'' True,
           P_stream 0 ''subtitle'' ''dvb_subtitle'' ''eng'' False,
           P_overall False, P_blank],
          \<lparr>total_count = 1, ok = 0, not_supported = 1, errors = 0\<rparr>) \<and>
   can_transcode (file_outcome ex_xvid_avi) \<and>
   check_file ex_lib verbose_flags ex_quoted_path False (Probe_Ok ex_xvid_avi) summary0 =
     Inl Buffer_Overflow"
  using ex_outcome_subs(2) ex_check_subs_only ex_outcome_xvid(2) ex_check_quoted_overflow
  by simp

text \<open>
  Claim C6, amended. For a probed file whose analysis returns, a remux command is printed
  exactly when the program is in verbose mode, the report is not suppressed by
  \<open>--skip-unfixable\<close>, the file is not fully supported and it has at least one video or
  audio stream, whether or not a transcode command follows; the command printed is the one
  the remux block builds. When the command of the form
  \<open>ffmpeg -i <escaped input> -map 0 -c copy <escaped remuxed_ + basename + .mkv>\<close>
  has fewer than 8192 characters, the remux block builds exactly that command. The
  analysis returns whenever it builds no transcode command.
\<close>

theorem C6_remux_offered:
  assumes "has_supported_extension filepath"
  shows "(check_file lib g filepath sfp (Probe_Ok fmt_ctx) summary = Inr (out, summary') \<longrightarrow>
            (P_remux c \<in> set out \<longleftrightarrow>
               \<not> brief_mode g \<and>
               \<not> (skip_unfixable g \<and> \<not> can_transcode (file_outcome fmt_ctx) \<and>
                  has_unsupported_bitmap_subtitle (file_outcome fmt_ctx)) \<and>
               \<not> all_supported (file_outcome fmt_ctx) \<and>
               has_audio_or_video (streams fmt_ctx) \<and>
               c = remux_command filepath)) \<and>
         (length (spec_remux_command filepath) < 8192 \<longrightarrow>
            remux_command filepath = spec_remux_command filepath) \<and>
         (\<not> brief_mode g \<and> \<not> can_transcode (file_outcome fmt_ctx) \<longrightarrow>
            (\<exists>out summary'.
               check_file lib g filepath sfp (Probe_Ok fmt_ctx) summary = Inr (out, summary')))"
proof (intro conjI impI)
  assume r: "check_file lib g filepath sfp (Probe_Ok fmt_ctx) summary = Inr (out, summary')"
  show "P_remux c \<in> set out \<longleftrightarrow>
               \<not> brief_mode g \<and>
               \<not> (skip_unfixable g \<and> \<not> can_transcode (file_outcome fmt_ctx) \<and>
                  has_unsupported_bitmap_subtitle (file_outcome fmt_ctx)) \<and>
               \<not> all_supported (file_outcome fmt_ctx) \<and>
               has_audio_or_video (streams fmt_ctx) \<and>
               c = remux_command filepath"
  proof (cases "brief_mode g")
    case True
    with r assms have "out = [] \<or> (\<exists>l. out = [P_brief (if sfp then filepath else get_basename filepath) l])"
      using check_file_brief_out by (simp add: check_file_probed_brief)
    with True show ?thesis by auto
  next
    case False
    with r assms have v: "check_file_verbose lib g filepath
       (if sfp then filepath else get_basename filepath)
       fmt_ctx (container_name fmt_ctx) (is_container_supported (Some (container_name fmt_ctx)))
       summary = Inr (out, summary')"
      by (simp add: check_file_probed_verbose)
    show ?thesis
      using check_file_verbose_remux [OF v, folded file_outcome_def] False by simp
  qed
next
  assume "length (spec_remux_command filepath) < 8192"
  then show "remux_command filepath = spec_remux_command filepath"
    by (rule remux_command_fits)
next
  assume "\<not> brief_mode g \<and> \<not> can_transcode (file_outcome fmt_ctx)"
  then show "\<exists>out summary'.
      check_file lib g filepath sfp (Probe_Ok fmt_ctx) summary = Inr (out, summary')"
    using assms check_file_verbose_no_transcode_returns
    by (simp add: check_file_probed_verbose file_outcome_def)
qed

theorem C6_remux_offered_witness:
  "has_supported_extension ''movie.avi'' \<and>
   check_file ex_lib verbose_flags ''movie.avi'' False (Probe_Ok ex_xvid_avi) summary0 =
     Inr ([P_header ''movie.avi'', P_container ''avi'' True,
           P_stream 0 ''video'' ''mpeg4'' ''und'' False,
           P_stream 1 ''audio'' ''aac'' ''eng'' True,
           P_overall False,
           P_remux ex_xvid_remux_cmd, P_remux_hint,
           P_transcode ex_xvid_transcode_cmd, P_blank],
          \<lparr>total_count = 1, ok = 0, not_supported = 1, errors = 0\<rparr>) \<and>
   \<not> brief_mode verbose_flags \<and> \<not> skip_unfixable verbose_flags \<and>
   \<not> all_supported (file_outcome ex_xvid_avi) \<and> has_audio_or_video (streams ex_xvid_avi) \<and>
   length (spec_remux_command ''movie.avi'') < 8192 \<and>
   remux_command ''movie.avi'' = spec_remux_command ''movie.avi'' \<and>
   ex_xvid_remux_cmd = spec_remux_command ''movie.avi'' \<and>
   \<not> can_transcode (file_outcome ex_pgs_mkv) \<and>
   check_file ex_lib verbose_flags ''movie.mkv'' False (Probe_Ok ex_pgs_mkv) summary0 =
     Inr ([P_header ''movie.mkv'', P_container ''matroska,webm'' True,
           P_stream 0 ''video'' ''h264'' ''und'' True,
           P_stream 1 ''audio'' ''aac'' ''eng'' True,
           P_stream 2 ''subtitle'' ''hdmv_pgs_subtitle'' ''eng'' False,
           P_bitmap_note 2 ''hdmv_pgs_subtitle'',
           P_overall False,
           P_remux ex_pgs_remux_cmd, P_remux_hint, P_blank],
          \<lparr>total_count = 1, ok = 0, not_supported = 1, errors = 0\<rparr>)"
proof -
  have e: "has_supported_extension ''movie.avi''"
    by (rule ex_extensions)
  have l: "length (spec_remux_command ''movie.avi'') < 8192"
    by (simp add: spec_remux_command_def spec_escape_def ex_basenames)
  have f: "\<not> brief_mode verbose_flags" "\<not> skip_unfixable verbose_flags"
    by (simp_all add: verbose_flags_def)
  have p: "check_file ex_lib verbose_flags ''movie.mkv'' False (Probe_Ok ex_pgs_mkv) summary0 =
     Inr ([P_header ''movie.mkv'', P_container ''matroska,webm'' True,
           P_stream 0 ''video'' ''h264'' ''und'' True,
           P_stream 1 ''audio'' ''aac'' ''eng'' True,
           P_stream 2 ''subtitle'' ''hdmv_pgs_subtitle'' ''eng'' False,
           P_bitmap_note 2 ''hdmv_pgs_subtitle'',
           P_overall False,
           P_remux ex_pgs_remux_cmd, P_remux_hint, P_blank],
          \<lparr>total_count = 1, ok = 0, not_supported = 1, errors = 0\<rparr>)"
    using ex_outcome_pgs ex_containers
    by (simp add: check_file_probed_verbose ex_extensions verbose_flags_def
        check_file_verbose_def file_outcome_def analyse_has_audio_or_video Let_def summary0_def
        ex_basenames ex_remux_cmds)
       (simp add: ex_pgs_mkv_def container_name_def video_stream_def audio_stream_def
         subtitle_stream_def ex_lib_def is_media_stream_def is_video_codec_supported_def
         is_audio_codec_supported_def is_subtitle_codec_supported_def is_bitmap_subtitle_def)
  show ?thesis
    using C6_remux_offered [OF e, of ex_lib verbose_flags False ex_xvid_avi summary0
        "[P_header ''movie.avi'', P_container ''avi'' True,
           P_stream 0 ''video'' ''mpeg4'' ''und'' False,
           P_stream 1 ''audio'' ''aac'' ''eng'' True,
           P_overall False,
           P_remux ex_xvid_remux_cmd, P_remux_hint,
           P_transcode ex_xvid_transcode_cmd, P_blank]"
        "\<lparr>total_count = 1, ok = 0, not_supported = 1, errors = 0\<rparr>" ex_xvid_remux_cmd]
      e l f p ex_check_xvid ex_outcome_xvid ex_outcome_pgs ex_remux_cmds
    by simp
qed

theorem C6_counterexample:
  "\<not> all_supported (file_outcome ex_pgs_mkv) \<and> has_audio_or_video (streams ex_pgs_mkv) \<and>
   check_file ex_lib skip_unfixable_flags ''movie.mkv'' False (Probe_Ok ex_pgs_mkv) summary0 =
     Inr ([], \<lparr>total_count = 1, ok = 0, not_supported = 1, errors = 0\<rparr>) \<and>
   \<not> all_supported (file_outcome ex_xvid_avi) \<and> has_audio_or_video (streams ex_xvid_avi) \<and>
   check_file ex_lib brief_flags ''movie.avi'' False (Probe_Ok ex_xvid_avi) summary0 =
     Inr ([P_brief ''movie.avi'' ex_xvid_brief_line],
          \<lparr>total_count = 1, ok = 0, not_supported = 1, errors = 0\<rparr>) \<and>
   check_file ex_lib verbose_flags ex_quoted_path False (Probe_Ok ex_pgs_mkv) summary0 =
     Inr ([P_header ''a.mkv'', P_container ''matroska,webm'' True,
           P_stream 0 ''video'' ''h264'' ''und'' True,
           P_stream 1 ''audio'' ''aac'' ''eng'' True,
           P_stream 2 ''subtitle'' ''hdmv_pgs_subtitle'' ''eng'' False,
           P_bitmap_note 2 ''hdmv_pgs_subtitle'',
           P_overall False,
           P_remux (remux_command ex_quoted_path), P_remux_hint, P_blank],
          \<lparr>total_count = 1, ok = 0, not_supported = 1, errors = 0\<rparr>) \<and>
   remux_command ex_quoted_path \<noteq> spec_remux_command ex_quoted_path"
  using ex_outcome_pgs ex_outcome_xvid ex_check_pgs_skipped ex_check_brief ex_check_quoted_pgs
    ex_quoted_remux_differs
  by simp

section \<open>Bitmap subtitles\<close>





theorem C2_outcome_flags_witness:
  "all_supported (analyse True (streams ex_ok_avi)) \<and>
   \<not> can_transcode (analyse True (streams ex_ok_avi)) \<and>
   \<not> all_supported (analyse True (streams ex_xvid_avi)) \<and>
   can_transcode (analyse True (streams ex_xvid_avi)) \<and>
   (\<exists>st \<in> set (streams ex_xvid_avi).
      is_media st \<and> \<not> stream_supported st \<and> \<not> is_bitmap_subtitle_stream st) \<and>
   \<not> all_supported (analyse True (streams ex_pgs_mkv)) \<and>
   \<not> can_transcode (analyse True (streams ex_pgs_mkv))"
  using C2_outcome_flags [of True "streams ex_ok_avi"]
    C2_outcome_flags [of True "streams ex_xvid_avi"]
    C2_outcome_flags [of True "streams ex_pgs_mkv"]
  by (simp add: ex_ok_avi_def ex_xvid_avi_def ex_pgs_mkv_def ex_media ex_supported ex_bitmap
      ex_types)

section \<open>The options of the transcode command\<close>

lemma rletter_digit:
  "d < 10 \<Longrightarrow> char_of (48 + d :: nat) \<noteq> CHR ''r''"
  "d < 10 \<Longrightarrow> CHR ''r'' \<noteq> char_of (48 + d :: nat)"
  by (simp_all add: char_of_eq_iff take_bit_eq_mod eq_commute [of "CHR ''r''"])

lemma rletter_printf_d: "CHR ''r'' \<notin> set (printf_d n)"
proof (induction n rule: printf_d.induct)
  case (1 n)
  show ?case
  proof (cases "n < 10")
    case True
    then show ?thesis
      by (subst printf_d.simps) (simp add: rletter_digit)
  next
    case False
    have "n mod 10 < 10" by simp
    with False 1 show ?thesis
      by (subst printf_d.simps) (simp add: rletter_digit)
  qed
qed

lemma spec_codec_cases:
  "spec_codec st = ''copy'' \<or> spec_codec st = ''libx264'' \<or> spec_codec st = ''aac''"
  by (simp add: spec_codec_def stream_supported_def is_text_subtitle_def
      is_subtitle_codec_supported_def)

lemma rletter_type_letter: "type_letter ty \<noteq> CHR ''r''" "CHR ''r'' \<noteq> type_letter ty"
  by (cases ty; simp)+

lemma rletter_spec_flag: "CHR ''r'' \<notin> set (spec_flag n st)"
  using spec_codec_cases [of st]
  by (auto simp: spec_flag_def rletter_printf_d rletter_type_letter)

lemma rletter_type_flags: "CHR ''r'' \<notin> set (type_flags ty sts)"
  by (auto simp: type_flags_def rletter_spec_flag)

lemma rletter_spec_selectors: "CHR ''r'' \<notin> set (spec_selectors sts)"
  by (auto simp: spec_selectors_def rletter_type_letter)

lemma rletter_grouped_options: "CHR ''r'' \<notin> set (grouped_options sts)"
  using rletter_spec_selectors [of sts] rletter_type_flags [of _ sts]
  by (auto simp: grouped_options_def snprintf_def dest: in_set_takeD)

lemma no_srt_grouped_options: "\<not> sublist ''srt'' (grouped_options sts)"
proof
  assume "sublist ''srt'' (grouped_options sts)"
  then have "set ''srt'' \<subseteq> set (grouped_options sts)"
    by (rule set_mono_sublist)
  then show False
    using rletter_grouped_options [of sts] by simp
qed

lemma map_enumerate_const:
  assumes "\<And>n x. x \<in> set xs \<Longrightarrow> f n x = h n"
  shows "map (\<lambda>(n, x). f n x) (enumerate k xs) = map h [k ..< k + length xs]"
  using assms
proof (induction xs arbitrary: k)
  case Nil
  then show ?case by simp
next
  case (Cons x xs)
  have "k < k + Suc (length xs)"
    by simp
  then have "[k ..< k + Suc (length xs)] = k # [Suc k ..< k + Suc (length xs)]"
    by (rule upt_conv_Cons)
  moreover have "map (\<lambda>(n, x). f n x) (enumerate (Suc k) xs) = map h [Suc k ..< Suc k + length xs]"
    using Cons.prems by (intro Cons.IH) simp
  moreover have "f k x = h k"
    using Cons.prems by simp
  ultimately show ?case
    by simp
qed

lemma spec_flag_subtitle_copy:
  "codec_type (codecpar st) = AVMEDIA_TYPE_SUBTITLE \<Longrightarrow>
     spec_flag n st = '' -c:s:'' @ printf_d n @ '' copy''"
  by (simp add: spec_flag_subtitle is_text_subtitle_def is_subtitle_codec_supported_def)

lemma type_flags_subtitle_copy:
  "type_flags AVMEDIA_TYPE_SUBTITLE sts = copy_flags (length (of_type AVMEDIA_TYPE_SUBTITLE sts))"
proof -
  have "map (\<lambda>(n, st). spec_flag n st) (enumerate 0 (of_type AVMEDIA_TYPE_SUBTITLE sts)) =
        map (\<lambda>n. '' -c:s:'' @ printf_d n @ '' copy'')
          [0 ..< 0 + length (of_type AVMEDIA_TYPE_SUBTITLE sts)]"
    by (rule map_enumerate_const) (simp add: of_type_def spec_flag_subtitle_copy)
  then show ?thesis
    by (simp add: type_flags_def copy_flags_def)
qed

lemma transcode_stream_subtitle_copy:
  assumes "codec_type (codecpar st) = AVMEDIA_TYPE_SUBTITLE"
    and "transcode_stream st t = Inr t'"
  shows "s_opts t' = snprintf_end 1024 (s_opts t) ('' -c:s:'' @ printf_d (s_cnt t) @ '' copy'')"
  using assms
  by (auto simp: transcode_stream_def is_media_stream_def Let_def
      is_text_subtitle_def is_subtitle_codec_supported_def split: sum.splits if_splits)

lemma ex_index_order_audio_first:
  "spec_selectors (streams ex_audio_first_avi) @ spec_flags_index_order (streams ex_audio_first_avi) =
     '' -map 0:a -map 0:v -c:a:0 copy -c:v:0 libx264''"
  by (simp add: ex_audio_first_avi_def spec_selectors_def media_types_def first_seen_def
      spec_flags_index_order_def upt_rec [of 0] upt_rec [of 1] upt_rec [of "Suc 0"] upt_rec [of 2]
      of_type_def spec_flag_def spec_codec_def ex_media ex_types ex_supported printf_d_0)

lemma ex_claimed_audio_first:
  "claimed_transcode_command ''movie.avi'' (streams ex_audio_first_avi) = ex_audio_first_claimed_cmd"
  using ex_index_order_audio_first
  by (simp add: claimed_transcode_command_def ex_fixed_basenames spec_escape_def squote_def
      ex_audio_first_claimed_cmd_def)

lemma ex_audio_first_differs:
  "ex_audio_first_transcode_cmd \<noteq> ex_audio_first_claimed_cmd"
  by (simp add: ex_audio_first_transcode_cmd_def ex_audio_first_claimed_cmd_def)

lemma ex_audio_first_not_sublist:
  "\<not> sublist '' -map 0:a -map 0:v -c:a:0 copy -c:v:0 libx264'' ex_audio_first_transcode_cmd"
  by (simp add: ex_audio_first_transcode_cmd_def sublist_Cons_right squote_def)


lemma remdups_replicate: "remdups (replicate (Suc n) x) = [x]"
  by (induction n) auto

lemma ex_many_audio_options:
  "spec_selectors ex_many_audio = '' -map 0:a''"
  "type_flags AVMEDIA_TYPE_VIDEO ex_many_audio = []"
  "type_flags AVMEDIA_TYPE_SUBTITLE ex_many_audio = []"
proof -
  have "(100 :: nat) = Suc 99"
    by simp
  then have "remdups (replicate 100 AVMEDIA_TYPE_AUDIO) = [AVMEDIA_TYPE_AUDIO]"
    by (simp only: remdups_replicate)
  then show "spec_selectors ex_many_audio = '' -map 0:a''"
    by (simp add: spec_selectors_def media_types_def first_seen_def ex_many_audio_def
        filter_replicate ex_media ex_types)
  show "type_flags AVMEDIA_TYPE_VIDEO ex_many_audio = []"
    "type_flags AVMEDIA_TYPE_SUBTITLE ex_many_audio = []"
    by (simp_all add: type_flags_def of_type_def ex_many_audio_def filter_replicate ex_types)
qed

lemma ex_many_audio_claimed_length:
  "length (spec_flags_index_order ex_many_audio) = 1190"
  by code_simp

lemma ex_many_audio_differs:
  "transcode_command ''movie.mkv'' ex_many_audio \<noteq>
     Inr (claimed_transcode_command ''movie.mkv'' ex_many_audio)"
proof
  assume eq: "transcode_command ''movie.mkv'' ex_many_audio =
     Inr (claimed_transcode_command ''movie.mkv'' ex_many_audio)"
  define c where "c = snprintf 8192 (''ffmpeg -i '' @ shell_escape_single ''movie.mkv'') @
      grouped_options ex_many_audio"
  have g: "length (grouped_options ex_many_audio) \<le> 1032"
    using length_snprintf [of 1024 "type_flags AVMEDIA_TYPE_AUDIO ex_many_audio"]
    by (simp add: grouped_options_def ex_many_audio_options) (simp add: snprintf_def)
  from g have c: "length c \<le> 1053"
    by (simp add: c_def snprintf_def shell_escape_single_def squote_def)
  have "transcode_command ''movie.mkv'' ex_many_audio =
      (if length c < 8192
       then Inr (snprintf 8192 (c @ '' '' @ shell_escape_single (fixed_basename ''movie.mkv'')))
       else Inl Buffer_Overflow)"
    unfolding c_def by (simp only: transcode_command_eq Let_def)
  with c have "transcode_command ''movie.mkv'' ex_many_audio =
      Inr (snprintf 8192 (c @ '' '' @ shell_escape_single (fixed_basename ''movie.mkv'')))"
    by simp
  with eq have "length (claimed_transcode_command ''movie.mkv'' ex_many_audio) =
      length (snprintf 8192 (c @ '' '' @ shell_escape_single (fixed_basename ''movie.mkv'')))"
    by simp
  also have "\<dots> \<le> length c + 18"
    by (simp add: snprintf_def ex_fixed_basenames shell_escape_single_def squote_def)
  finally have "length (claimed_transcode_command ''movie.mkv'' ex_many_audio) \<le> 1071"
    using c by simp
  moreover have "length (claimed_transcode_command ''movie.mkv'' ex_many_audio) \<ge> 1190"
    by (simp add: claimed_transcode_command_def ex_many_audio_claimed_length)
  ultimately show False
    by simp
qed

text \<open>
  Claim C3, amended. The transcode command is \<open>ffmpeg -i <escaped input>\<close>, then one
  \<open>-map 0:<letter>\<close> selector for each media type present among video, audio and
  subtitle, once per type in first-seen stream order, then the codec-selection flags
  grouped by media type: all video flags, then all audio flags, then all subtitle flags,
  each group in original index order with a counter local to the type that starts at 0.
  Video gets \<open>copy\<close> if supported, else \<open>libx264\<close>; audio \<open>copy\<close> if supported, else
  \<open>aac\<close>; a subtitle \<open>copy\<close> if supported, \<open>srt\<close> if unsupported but text, else
  \<open>copy\<close>. Each group is cut to 1023 characters and the command to 8191; when nothing is
  cut the command is exactly this text followed by the escaped output name. For a file
  with one MPEG4/XVID video stream followed by one AAC audio stream the command contains
  \<open>-map 0:v -map 0:a -c:v:0 libx264 -c:a:0 copy\<close>.
\<close>

theorem C3_transcode_command:
  "transcode_command filepath sts =
     (let c = snprintf 8192 (''ffmpeg -i '' @ shell_escape_single filepath) @
              spec_selectors sts @
              snprintf 1024 (type_flags AVMEDIA_TYPE_VIDEO sts) @
              snprintf 1024 (type_flags AVMEDIA_TYPE_AUDIO sts) @
              snprintf 1024 (type_flags AVMEDIA_TYPE_SUBTITLE sts)
      in if length c < 8192
         then Inr (snprintf 8192 (c @ '' '' @ shell_escape_single (fixed_basename filepath)))
         else Inl Buffer_Overflow) \<and>
   (length (type_flags AVMEDIA_TYPE_VIDEO sts) < 1024 \<and>
    length (type_flags AVMEDIA_TYPE_AUDIO sts) < 1024 \<and>
    length (type_flags AVMEDIA_TYPE_SUBTITLE sts) < 1024 \<and>
    length (spec_transcode_command filepath sts) < 8192 \<longrightarrow>
      transcode_command filepath sts = Inr (spec_transcode_command filepath sts)) \<and>
   transcode_command ''movie.avi'' (streams ex_xvid_avi) = Inr ex_xvid_transcode_cmd \<and>
   sublist ''-map 0:v -map 0:a -c:v:0 libx264 -c:a:0 copy'' ex_xvid_transcode_cmd"
proof (intro conjI impI)
  show "transcode_command filepath sts =
     (let c = snprintf 8192 (''ffmpeg -i '' @ shell_escape_single filepath) @
              spec_selectors sts @
              snprintf 1024 (type_flags AVMEDIA_TYPE_VIDEO sts) @
              snprintf 1024 (type_flags AVMEDIA_TYPE_AUDIO sts) @
              snprintf 1024 (type_flags AVMEDIA_TYPE_SUBTITLE sts)
      in if length c < 8192
         then Inr (snprintf 8192 (c @ '' '' @ shell_escape_single (fixed_basename filepath)))
         else Inl Buffer_Overflow)"
    by (simp add: transcode_command_eq grouped_options_def)
  show "transcode_command ''movie.avi'' (streams ex_xvid_avi) = Inr ex_xvid_transcode_cmd"
    by (rule ex_transcode_xvid)
  show "sublist ''-map 0:v -map 0:a -c:v:0 libx264 -c:a:0 copy'' ex_xvid_transcode_cmd"
    unfolding ex_xvid_transcode_cmd_def by (rule sublist_appendI)
next
  assume a: "length (type_flags AVMEDIA_TYPE_VIDEO sts) < 1024 \<and>
    length (type_flags AVMEDIA_TYPE_AUDIO sts) < 1024 \<and>
    length (type_flags AVMEDIA_TYPE_SUBTITLE sts) < 1024 \<and>
    length (spec_transcode_command filepath sts) < 8192"
  then show "transcode_command filepath sts = Inr (spec_transcode_command filepath sts)"
    by (simp add: transcode_command_eq grouped_options_def Let_def snprintf_fits
        spec_transcode_command_def shell_escape_single_spec)
qed


lemma ex_type_flags_xvid:
  "type_flags AVMEDIA_TYPE_VIDEO (streams ex_xvid_avi) = '' -c:v:0 libx264''"
  "type_flags AVMEDIA_TYPE_AUDIO (streams ex_xvid_avi) = '' -c:a:0 copy''"
  "type_flags AVMEDIA_TYPE_SUBTITLE (streams ex_xvid_avi) = []"
  "spec_selectors (streams ex_xvid_avi) = '' -map 0:v -map 0:a''"
  by (simp_all add: ex_xvid_avi_def ex_eval_defs ex_media ex_types ex_supported printf_d_0)

lemma ex_spec_transcode_xvid:
  "spec_transcode_command ''movie.avi'' (streams ex_xvid_avi) = ex_xvid_transcode_cmd"
  by (simp add: spec_transcode_command_def ex_type_flags_xvid ex_fixed_basenames spec_escape_def
      squote_def ex_xvid_transcode_cmd_def)

theorem C3_transcode_command_witness:
  "length (type_flags AVMEDIA_TYPE_VIDEO (streams ex_xvid_avi)) < 1024 \<and>
   length (type_flags AVMEDIA_TYPE_AUDIO (streams ex_xvid_avi)) < 1024 \<and>
   length (type_flags AVMEDIA_TYPE_SUBTITLE (streams ex_xvid_avi)) < 1024 \<and>
   length (spec_transcode_command ''movie.avi'' (streams ex_xvid_avi)) < 8192 \<and>
   transcode_command ''movie.avi'' (streams ex_xvid_avi) =
     Inr (spec_transcode_command ''movie.avi'' (streams ex_xvid_avi)) \<and>
   spec_transcode_command ''movie.avi'' (streams ex_xvid_avi) = ex_xvid_transcode_cmd"
proof -
  have l: "length (spec_transcode_command ''movie.avi'' (streams ex_xvid_avi)) < 8192"
    by (simp add: ex_spec_transcode_xvid ex_xvid_transcode_cmd_def)
  show ?thesis
    using C3_transcode_command [of "''movie.avi''" "streams ex_xvid_avi", THEN conjunct2,
        THEN conjunct1] l
    by (simp add: ex_type_flags_xvid ex_spec_transcode_xvid)
qed

theorem C3_counterexample:
  "transcode_command ''movie.avi'' (streams ex_audio_first_avi) =
     Inr ex_audio_first_transcode_cmd \<and>
   claimed_transcode_command ''movie.avi'' (streams ex_audio_first_avi) =
     ex_audio_first_claimed_cmd \<and>
   ex_audio_first_transcode_cmd \<noteq> ex_audio_first_claimed_cmd \<and>
   spec_selectors (streams ex_audio_first_avi) @
     spec_flags_index_order (streams ex_audio_first_avi) =
     '' -map 0:a -map 0:v -c:a:0 copy -c:v:0 libx264'' \<and>
   \<not> sublist '' -map 0:a -map 0:v -c:a:0 copy -c:v:0 libx264'' ex_audio_first_transcode_cmd \<and>
   transcode_command ''movie.mkv'' ex_many_audio \<noteq>
     Inr (claimed_transcode_command ''movie.mkv'' ex_many_audio)"
  using ex_transcode_audio_first ex_claimed_audio_first ex_audio_first_differs
    ex_index_order_audio_first ex_audio_first_not_sublist ex_many_audio_differs
  by simp

lemma ex_grouped_dts_subs:
  "grouped_options (streams ex_dts_subs_mkv) =
     '' -map 0:v -map 0:a -map 0:s -c:v:0 copy -c:a:0 aac -c:s:0 copy -c:s:1 copy''"
proof -
  have s: "stream_supported (subtitle_stream AV_CODEC_ID_SUBRIP)"
    "\<not> stream_supported (audio_stream AV_CODEC_ID_DTS)"
    "\<not> is_text_subtitle AV_CODEC_ID_HDMV_PGS_SUBTITLE"
    "codec_id (codecpar (subtitle_stream AV_CODEC_ID_HDMV_PGS_SUBTITLE)) =
       AV_CODEC_ID_HDMV_PGS_SUBTITLE"
    by (simp_all add: stream_supported_def subtitle_stream_def audio_stream_def
        is_subtitle_codec_supported_def is_audio_codec_supported_def is_text_subtitle_def)
  show ?thesis
    by (simp add: ex_dts_subs_mkv_def ex_eval_defs ex_media ex_types ex_supported s snprintf_fits
      printf_d_0 printf_d_1)
qed

lemma ex_transcode_dts_subs:
  "transcode_command ''movie.mkv'' (streams ex_dts_subs_mkv) = Inr ex_dts_subs_transcode_cmd"
  by (simp add: transcode_command_eq ex_grouped_dts_subs ex_fixed_basenames snprintf_fits
      shell_escape_single_def ex_dts_subs_transcode_cmd_def squote_def)

text \<open>
  Claim C10, amended. No transcode command selects the \<open>srt\<close> codec: whatever the
  streams, the flag written for a subtitle stream is \<open>-c:s:N copy\<close>, because the codecs
  classified as text are the codecs classified as supported, and the text \<open>srt\<close> does
  not occur in the options of the command. The subtitle flags are the \<open>copy\<close> flags
  numbered from 0, cut to the 1023 characters of their buffer: with many subtitle streams
  the last flag kept can be cut short and the later streams have no flag.
\<close>

theorem C10_never_srt:
  "(codec_type (codecpar st) = AVMEDIA_TYPE_SUBTITLE \<and> transcode_stream st t = Inr t' \<longrightarrow>
      s_opts t' =
        snprintf_end 1024 (s_opts t) ('' -c:s:'' @ printf_d (s_cnt t) @ '' copy'')) \<and>
   type_flags AVMEDIA_TYPE_SUBTITLE sts =
     copy_flags (length (of_type AVMEDIA_TYPE_SUBTITLE sts)) \<and>
   (transcode_command filepath sts = Inr c \<longrightarrow>
      c = snprintf 8192
            (snprintf 8192 (''ffmpeg -i '' @ shell_escape_single filepath) @
             grouped_options sts @
             '' '' @ shell_escape_single (fixed_basename filepath))) \<and>
   \<not> sublist ''srt'' (grouped_options sts) \<and>
   \<not> (is_text_subtitle cid \<and> \<not> is_subtitle_codec_supported cid)"
proof (intro conjI impI)
  assume "codec_type (codecpar st) = AVMEDIA_TYPE_SUBTITLE \<and> transcode_stream st t = Inr t'"
  then show "s_opts t' =
        snprintf_end 1024 (s_opts t) ('' -c:s:'' @ printf_d (s_cnt t) @ '' copy'')"
    using transcode_stream_subtitle_copy by blast
next
  show "type_flags AVMEDIA_TYPE_SUBTITLE sts =
     copy_flags (length (of_type AVMEDIA_TYPE_SUBTITLE sts))"
    by (rule type_flags_subtitle_copy)
next
  assume "transcode_command filepath sts = Inr c"
  then show "c = snprintf 8192
            (snprintf 8192 (''ffmpeg -i '' @ shell_escape_single filepath) @
             grouped_options sts @
             '' '' @ shell_escape_single (fixed_basename filepath))"
    by (simp add: transcode_command_eq Let_def split: if_splits)
next
  show "\<not> sublist ''srt'' (grouped_options sts)"
    by (rule no_srt_grouped_options)
next
  show "\<not> (is_text_subtitle cid \<and> \<not> is_subtitle_codec_supported cid)"
    by (auto simp: is_text_subtitle_def is_subtitle_codec_supported_def)
qed

theorem C10_never_srt_witness:
  "codec_type (codecpar (subtitle_stream AV_CODEC_ID_HDMV_PGS_SUBTITLE)) = AVMEDIA_TYPE_SUBTITLE \<and>
   transcode_stream (subtitle_stream AV_CODEC_ID_HDMV_PGS_SUBTITLE) (t_init ''ffmpeg'') =
     Inr \<lparr>cmd = ''ffmpeg -map 0:s'', v_cnt = 0, a_cnt = 0, s_cnt = 1,
          v_opts = [], a_opts = [], s_opts = '' -c:s:0 copy'',
          had_video = False, had_audio = False, had_sub = True\<rparr> \<and>
   transcode_command ''movie.mkv'' (streams ex_dts_subs_mkv) = Inr ex_dts_subs_transcode_cmd \<and>
   grouped_options (streams ex_dts_subs_mkv) =
     '' -map 0:v -map 0:a -map 0:s -c:v:0 copy -c:a:0 aac -c:s:0 copy -c:s:1 copy'' \<and>
   \<not> sublist ''srt'' (grouped_options (streams ex_dts_subs_mkv))"
proof -
  have t: "transcode_stream (subtitle_stream AV_CODEC_ID_HDMV_PGS_SUBTITLE) (t_init ''ffmpeg'') =
     Inr \<lparr>cmd = ''ffmpeg -map 0:s'', v_cnt = 0, a_cnt = 0, s_cnt = 1,
          v_opts = [], a_opts = [], s_opts = '' -c:s:0 copy'',
          had_video = False, had_audio = False, had_sub = True\<rparr>"
    by (simp add: transcode_stream_def t_init_def subtitle_stream_def is_media_stream_def
        strcat_def snprintf_end_def is_subtitle_codec_supported_def is_text_subtitle_def
        printf_d_0 Let_def)
  show ?thesis
    using C10_never_srt [of "subtitle_stream AV_CODEC_ID_HDMV_PGS_SUBTITLE" "t_init ''ffmpeg''"
        "\<lparr>cmd = ''ffmpeg -map 0:s'', v_cnt = 0, a_cnt = 0, s_cnt = 1,
          v_opts = [], a_opts = [], s_opts = '' -c:s:0 copy'',
          had_video = False, had_audio = False, had_sub = True\<rparr>"
        "streams ex_dts_subs_mkv" "''movie.mkv''" ex_dts_subs_transcode_cmd]
      t ex_transcode_dts_subs ex_grouped_dts_subs
    by (simp add: ex_types)
qed

text \<open>
  The file with one hundred subtitle streams: the 1023 characters of the subtitle buffer
  end inside the flag of stream 79, so the command of 1091 characters holds the flags of
  streams 0 to 78 only.
\<close>

lemma copy_flags_79_length: "length (copy_flags 79) = 1017"
  by code_simp

lemma printf_d_79: "printf_d 79 = ''79''"
  by code_simp

lemma copy_flags_append:
  "copy_flags (k + m) =
     copy_flags k @ concat (map (\<lambda>n. '' -c:s:'' @ printf_d n @ '' copy'') [k ..< k + m])"
proof -
  have "[0 ..< k + m] = [0 ..< k] @ [k ..< k + m]"
    by (rule upt_add_eq_append) simp
  then show ?thesis
    by (simp only: copy_flags_def map_append concat_append)
qed

lemma copy_flags_100_cut: "snprintf 1024 (copy_flags 100) = copy_flags 79 @ '' -c:s:''"
proof -
  define rest where
    "rest = concat (map (\<lambda>n. '' -c:s:'' @ printf_d n @ '' copy'') [Suc 79 ..< 79 + 21])"
  have "[79 ..< 79 + 21] = 79 # [Suc 79 ..< 79 + 21]"
    by (rule upt_conv_Cons) simp
  then have "concat (map (\<lambda>n. '' -c:s:'' @ printf_d n @ '' copy'') [79 ..< 79 + 21]) =
      '' -c:s:79 copy'' @ rest"
    by (simp only: rest_def list.map concat.simps printf_d_79 append.simps append_assoc)
  then have "copy_flags (79 + 21) = copy_flags 79 @ '' -c:s:79 copy'' @ rest"
    by (simp only: copy_flags_append)
  moreover have "copy_flags 100 = copy_flags (79 + 21)"
    by simp
  ultimately have "copy_flags 100 = copy_flags 79 @ '' -c:s:79 copy'' @ rest"
    by (rule back_subst [where P = "\<lambda>x. x = _", OF _ sym])
  then show ?thesis
    by (simp add: snprintf_def copy_flags_79_length)
qed

lemma copy_flags_100_length: "length (copy_flags 100) = 1290"
  by code_simp

lemma ex_many_subs_options:
  "spec_selectors ex_many_subs = '' -map 0:a -map 0:s''"
  "type_flags AVMEDIA_TYPE_VIDEO ex_many_subs = []"
  "type_flags AVMEDIA_TYPE_AUDIO ex_many_subs = '' -c:a:0 aac''"
  "length (of_type AVMEDIA_TYPE_SUBTITLE ex_many_subs) = 100"
proof -
  have r: "remdups (replicate (Suc n) x @ [y]) = [x, y]" if "x \<noteq> y" for n and x y :: AVMediaType
    using that by (induction n) auto
  have "(100 :: nat) = Suc 99"
    by simp
  then have "remdups (replicate 100 AVMEDIA_TYPE_SUBTITLE @ [AVMEDIA_TYPE_AUDIO]) =
      [AVMEDIA_TYPE_SUBTITLE, AVMEDIA_TYPE_AUDIO]"
    using r [of AVMEDIA_TYPE_SUBTITLE AVMEDIA_TYPE_AUDIO 99] by simp
  then show "spec_selectors ex_many_subs = '' -map 0:a -map 0:s''"
    by (simp add: spec_selectors_def media_types_def first_seen_def ex_many_subs_def
        filter_replicate ex_media ex_types)
  have u: "\<not> stream_supported (audio_stream AV_CODEC_ID_DTS)"
    by (simp add: stream_supported_def audio_stream_def is_audio_codec_supported_def)
  show "type_flags AVMEDIA_TYPE_VIDEO ex_many_subs = []"
    "type_flags AVMEDIA_TYPE_AUDIO ex_many_subs = '' -c:a:0 aac''"
    "length (of_type AVMEDIA_TYPE_SUBTITLE ex_many_subs) = 100"
    by (simp_all add: type_flags_def of_type_def ex_many_subs_def filter_replicate ex_types
        spec_flag_def spec_codec_def u printf_d_0)
qed

lemma ex_grouped_many_subs:
  "grouped_options ex_many_subs =
     '' -map 0:a -map 0:s -c:a:0 aac'' @ copy_flags 79 @ '' -c:s:''"
  by (simp add: grouped_options_def ex_many_subs_options type_flags_subtitle_copy
      copy_flags_100_cut snprintf_fits)

lemma ex_transcode_many_subs:
  "transcode_command ''movie.mkv'' ex_many_subs = Inr ex_many_subs_cmd"
  by (simp add: transcode_command_eq ex_grouped_many_subs ex_fixed_basenames snprintf_fits
      shell_escape_single_def ex_many_subs_cmd_def squote_def copy_flags_79_length Let_def)

lemma ex_many_subs_cmd_length: "length ex_many_subs_cmd = 1091"
  by (simp add: ex_many_subs_cmd_def copy_flags_79_length)

lemma ex_many_subs_not_all: "\<not> sublist (copy_flags 100) ex_many_subs_cmd"
proof
  assume "sublist (copy_flags 100) ex_many_subs_cmd"
  then have "length (copy_flags 100) \<le> length ex_many_subs_cmd"
    by (rule sublist_length_le)
  then show False
    by (simp add: copy_flags_100_length ex_many_subs_cmd_length)
qed


lemma ex_many_subs_no_99: "\<not> sublist '' -c:s:99 copy'' ex_many_subs_cmd"
  by code_simp

theorem C10_counterexample:
  "length (of_type AVMEDIA_TYPE_SUBTITLE ex_many_subs) = 100 \<and>
   transcode_command ''movie.mkv'' ex_many_subs = Inr ex_many_subs_cmd \<and>
   length ex_many_subs_cmd = 1091 \<and>
   length (copy_flags 100) = 1290 \<and>
   \<not> sublist (copy_flags 100) ex_many_subs_cmd \<and>
   \<not> sublist '' -c:s:99 copy'' ex_many_subs_cmd"
  using ex_many_subs_options(4) ex_transcode_many_subs ex_many_subs_cmd_length
    copy_flags_100_length ex_many_subs_not_all ex_many_subs_no_99
  by simp

end
